theory Spec2Isabelle
  imports Complex_Main "HOL-Library.Sublist" "HOL-Library.AList"
begin

section \<open>The Authenticator of osm\_nbi (src/osm\_nbi/auth.py)\<close>

text \<open>
  A shallow embedding of \<^verbatim>\<open>Authenticator\<close>: its token cache and token store, the
  permission catalog built by \<^verbatim>\<open>init_db\<close>, the URL resolver \<^verbatim>\<open>_normalize_url\<close>
  and the request gate \<^verbatim>\<open>authorize\<close>/\<^verbatim>\<open>check_permissions\<close>.

  Conventions. Python exceptions are values of \<open>error\<close>, and a function that may raise
  returns \<open>error + 'a\<close> (\<open>Inl\<close> the exception). The mutable attributes of the object,
  the collections of the database and the log of calls made to the identity backend are
  fields of one state record that every operation returns updated. Timestamps
  (\<^verbatim>\<open>time()\<close>, a float) are idealised as \<open>real\<close>. Strings are byte strings.
\<close>

subsection \<open>Errors\<close>

datatype http_status = UNAUTHORIZED | NOT_FOUND | CONFLICT | BAD_GATEWAY | INTERNAL_SERVER_ERROR

text \<open>
  \<^verbatim>\<open>AuthException(message, http_code=HTTPStatus.UNAUTHORIZED)\<close> of authconn.py,
  \<^verbatim>\<open>AuthconnException\<close> of the same file (what a backend connector raises),
  \<^verbatim>\<open>DbException\<close> of osm\_common, and the built-in exceptions the code can run into.
\<close>

datatype error =
    AuthException string http_status
  | AuthconnException string http_status
  | DbException string http_status
  | KeyError
  | IndexError
  | TypeError
  | AttributeError

subsection \<open>Sessions\<close>

text \<open>
  The session dictionary that \<^verbatim>\<open>new_token\<close> builds. Its keys \<^verbatim>\<open>_id\<close> and \<^verbatim>\<open>id\<close>
  always hold the same value (field \<open>sid\<close>); \<^verbatim>\<open>remote_host\<close> is set only when the
  remote has a name or an address. In delegated mode \<^verbatim>\<open>username\<close> can be \<^verbatim>\<open>None\<close>.
\<close>

record session =
  sid :: string
  issued_at :: real
  expires :: real
  project_id :: string
  username :: "string option"
  remote_port :: int
  remote_host :: "string option"
  admin :: bool

text \<open>Python's truth value of an optional string: \<^verbatim>\<open>None\<close> and \<^verbatim>\<open>""\<close> are false.\<close>

fun truthy :: "string option \<Rightarrow> bool" where
  "truthy None = False"
| "truthy (Some s) = (s \<noteq> [])"

subsection \<open>The identity backend\<close>

text \<open>
  The backend connector (class \<^verbatim>\<open>Authconn\<close> of authconn.py is its abstract interface; the
  implementation is outside the repository's sources) is a parameter: each method is a
  function from the calls made so far and the arguments to either an exception or a
  result. Every call the Authenticator makes is appended to the log \<open>backend_calls\<close>.
\<close>

datatype backend_call =
    Authenticate "string option" "string option" "string option" "string option"
  | ValidateToken string
  | RevokeToken string
  | GetUserRoleList string
  | GetRoleList
  | CreateRole string
  | AssignRoleToUser string string string

text \<open>
  \<^verbatim>\<open>get_user_role_list\<close> returns the role names, or \<^verbatim>\<open>None\<close> for an unscoped token
  (docstring of \<^verbatim>\<open>Authconn.get_user_role_list\<close>); \<^verbatim>\<open>get_role_list\<close> returns the roles
  as pairs of their \<^verbatim>\<open>name\<close> and \<^verbatim>\<open>_id\<close>, and \<^verbatim>\<open>create_role\<close> the \<^verbatim>\<open>_id\<close> of the
  new role. What \<^verbatim>\<open>backend.authenticate\<close> returns: \<^verbatim>\<open>_id\<close> and \<^verbatim>\<open>project_id\<close> are read with
  \<^verbatim>\<open>[...]\<close>, the others with \<^verbatim>\<open>.get\<close>.
\<close>

record token_info =
  ti_id :: string
  ti_project_id :: string
  ti_expires :: "real option"
  ti_username :: "string option"
  ti_project_name :: "string option"

record backend =
  be_authenticate :: "backend_call list \<Rightarrow> string option \<Rightarrow> string option \<Rightarrow> string option
                        \<Rightarrow> string option \<Rightarrow> error + token_info"
  be_validate_token :: "backend_call list \<Rightarrow> string \<Rightarrow> error + unit"
  be_revoke_token :: "backend_call list \<Rightarrow> string \<Rightarrow> error + unit"
  be_get_user_role_list :: "backend_call list \<Rightarrow> string \<Rightarrow> error + string list option"
  be_get_role_list :: "backend_call list \<Rightarrow> error + (string \<times> string) list"
  be_create_role :: "backend_call list \<Rightarrow> string \<Rightarrow> error + string"
  be_assign_role_to_user :: "backend_call list \<Rightarrow> string \<Rightarrow> string \<Rightarrow> string \<Rightarrow> error + unit"

subsection \<open>Configuration and state\<close>

text \<open>
  \<open>cfg_backend\<close> is \<^verbatim>\<open>config["authentication"]["backend"]\<close>; the two test keys are
  \<^verbatim>\<open>config["global"].get("test.user_not_authorized")\<close> and
  \<^verbatim>\<open>config["global"].get("test.project_not_authorized")\<close>.
\<close>

record config =
  cfg_backend :: string
  cfg_test_user_not_authorized :: "string option"
  cfg_test_project_not_authorized :: "string option"

text \<open>A value stored in a \<^verbatim>\<open>roles_operations\<close> record.\<close>

datatype dbval = VBool bool | VStr string | VAdmin real real | VNone

text \<open>Rows of the \<^verbatim>\<open>users\<close> and \<^verbatim>\<open>projects\<close> collections, with the keys the code reads.\<close>

record user_row =
  u_username :: string
  u_password :: string
  u_salt :: string
  u_projects :: "string list"

record project_row =
  p_id :: string
  p_name :: string
  p_admin :: "bool option"

text \<open>
  The attributes of the \<^verbatim>\<open>Authenticator\<close> object, the four database collections
  (the persistent store is osm\_common's; a collection is the list of its rows in
  insertion order), the backend call log, and the two pieces of the HTTP layer that
  \<^verbatim>\<open>authorize\<close> writes: \<^verbatim>\<open>cherrypy.session['Authorization']\<close> and the
  \<^verbatim>\<open>WWW-Authenticate\<close> response header.
\<close>

record auth_state =
  tokens_cache :: "string \<rightharpoonup> session"
  next_db_prune_time :: real
  resources_to_operations_mapping :: "(string \<times> string) list"
  operation_to_allowed_roles :: "(string \<times> dbval list) list"
  db_tokens :: "session list"
  db_users :: "user_row list"
  db_projects :: "project_row list"
  db_roles_operations :: "(string \<times> dbval) list list"
  backend_calls :: "backend_call list"
  http_session_authorization :: "string option"
  www_authenticate :: "string option"

subsection \<open>Pruning of the token store (internal mode)\<close>

text \<open>\<^verbatim>\<open>periodin_db_pruning = 60 * 30\<close>\<close>

definition periodin_db_pruning :: real where
  "periodin_db_pruning = 60 * 30"

text \<open>
  \<^verbatim>\<open>_internal_tokens_prune(self, now=None)\<close>. The first argument is the clock
  (\<^verbatim>\<open>time()\<close>), read when \<^verbatim>\<open>now\<close> is \<^verbatim>\<open>None\<close> or zero.
  \<^verbatim>\<open>db.del_list("tokens", {"expires.lt": now})\<close> removes the rows with
  \<open>expires < now\<close>.
\<close>

definition internal_tokens_prune :: "real \<Rightarrow> real option \<Rightarrow> auth_state \<Rightarrow> auth_state" where
  "internal_tokens_prune clock now_arg st =
     (let now = (case now_arg of None \<Rightarrow> clock | Some n \<Rightarrow> if n = 0 then clock else n)
      in if next_db_prune_time st = 0 \<or> next_db_prune_time st \<ge> now
         then st\<lparr> db_tokens := filter (\<lambda>s. \<not> expires s < now) (db_tokens st),
                  next_db_prune_time := periodin_db_pruning + now,
                  tokens_cache := Map.empty \<rparr>
         else st)"

subsection \<open>The persistent store\<close>

text \<open>
  Modelled from the spec: the persistent-store capability (osm\_common's \<^verbatim>\<open>DbBase\<close>),
  whose code is not part of the repository. A single-record read \<^verbatim>\<open>get_one\<close> asserts
  the cardinality of the rows that pass the filter (\<^verbatim>\<open>fail_on_empty\<close>,
  \<^verbatim>\<open>fail_on_more\<close>), \<^verbatim>\<open>get_list\<close> returns the rows that pass it, \<^verbatim>\<open>del_one\<close>
  deletes the first such row and fails with NOT\_FOUND when there is none, and
  \<^verbatim>\<open>create\<close> appends a row.
\<close>

definition db_get_one :: "('a \<Rightarrow> bool) \<Rightarrow> 'a list \<Rightarrow> error + 'a" where
  "db_get_one flt rows =
     (case filter flt rows of
        [] \<Rightarrow> Inl (DbException ''Not found entry'' NOT_FOUND)
      | [r] \<Rightarrow> Inr r
      | _ \<Rightarrow> Inl (DbException ''Found more than one entry'' CONFLICT))"

fun db_del_one :: "('a \<Rightarrow> bool) \<Rightarrow> 'a list \<Rightarrow> error + 'a list" where
  "db_del_one flt [] = Inl (DbException ''Not found entry'' NOT_FOUND)"
| "db_del_one flt (r # rows) =
     (if flt r then Inr rows
      else case db_del_one flt rows of Inl e \<Rightarrow> Inl e | Inr rows' \<Rightarrow> Inr (r # rows'))"

subsection \<open>Issuing tokens\<close>

text \<open>
  The arguments of \<^verbatim>\<open>new_token(self, session, indata, remote)\<close>. Of the caller's session
  (a non-empty dictionary, or \<^verbatim>\<open>None\<close>) the code reads the keys \<^verbatim>\<open>token\<close> and
  \<^verbatim>\<open>username\<close>; of \<^verbatim>\<open>indata\<close> the keys \<^verbatim>\<open>username\<close>, \<^verbatim>\<open>password\<close> and
  \<^verbatim>\<open>project_id\<close>; of \<^verbatim>\<open>remote\<close> the attributes \<^verbatim>\<open>name\<close>, \<^verbatim>\<open>ip\<close> and \<^verbatim>\<open>port\<close>.
  A key that is absent reads as \<open>None\<close>.
\<close>

record caller_session =
  cs_token :: "string option"
  cs_username :: "string option"

record indata =
  in_username :: "string option"
  in_password :: "string option"
  in_project_id :: "string option"

record remote =
  r_name :: "string option"
  r_ip :: "string option"
  r_port :: int

text \<open>
  The tail of both issuing paths:
  \<^verbatim>\<open>if remote.name: new_session["remote_host"] = remote.name
elif remote.ip: new_session["remote_host"] = remote.ip\<close>
\<close>

definition remote_host_of :: "remote \<Rightarrow> string option" where
  "remote_host_of r =
     (if truthy (r_name r) then r_name r else if truthy (r_ip r) then r_ip r else None)"

text \<open>
  \<^verbatim>\<open>BaseTopic.id_field("projects", project_id)\<close> (base\_topic.py is not among the sources)
  chooses the key a project is looked up by; it is the parameter \<open>id_field\<close> of
  \<open>internal_new_token\<close>.
\<close>

datatype project_key = By_id | By_name

definition project_filter :: "(string \<Rightarrow> project_key) \<Rightarrow> string \<Rightarrow> project_row \<Rightarrow> bool" where
  "project_filter id_field project p =
     (case id_field project of By_id \<Rightarrow> p_id p = project | By_name \<Rightarrow> p_name p = project)"

text \<open>
  The credential check of \<^verbatim>\<open>_internal_new_token\<close>: the user row the token is issued for.
  \<open>sha256_hex\<close> stands for \<^verbatim>\<open>sha256(...).hexdigest()\<close>.
\<close>

definition internal_user_content ::
  "(string \<Rightarrow> string) \<Rightarrow> caller_session option \<Rightarrow> indata \<Rightarrow> user_row list \<Rightarrow> error + user_row" where
  "internal_user_content sha256_hex sess ind users =
     (if truthy (in_username ind) then
        (case filter (\<lambda>u. Some (u_username u) = in_username ind) users of
           [] \<Rightarrow> Inl (AuthException ''Invalid username/password'' UNAUTHORIZED)
         | u # _ \<Rightarrow>
             if sha256_hex ((case in_password ind of None \<Rightarrow> [] | Some pw \<Rightarrow> pw) @ u_salt u)
                  \<noteq> u_password u
             then Inl (AuthException ''Invalid username/password'' UNAUTHORIZED)
             else Inr u)
      else case sess of
        Some cs \<Rightarrow>
          (case cs_username cs of
             None \<Rightarrow> Inl KeyError
           | Some name \<Rightarrow>
               (case filter (\<lambda>u. u_username u = name) users of
                  [] \<Rightarrow> Inl (AuthException ''Invalid token'' UNAUTHORIZED)
                | u # _ \<Rightarrow> Inr u))
      | None \<Rightarrow>
          Inl (AuthException
                 ''Provide credentials: username/password or Authorization Bearer token''
                 UNAUTHORIZED))"

text \<open>The project the token is scoped to, and whether the user may use it.\<close>

definition internal_project_id ::
  "(string \<Rightarrow> project_key) \<Rightarrow> indata \<Rightarrow> user_row \<Rightarrow> project_row list \<Rightarrow> error + string" where
  "internal_project_id id_field ind u projects =
     (if truthy (in_project_id ind) then
        (let project = (case in_project_id ind of None \<Rightarrow> [] | Some p \<Rightarrow> p) in
         if project \<noteq> ''admin'' then
           (case db_get_one (project_filter id_field project) projects of
              Inl e \<Rightarrow> Inl e
            | Inr proj \<Rightarrow>
                if p_id proj \<notin> set (u_projects u) \<and> p_name proj \<notin> set (u_projects u)
                then Inl (AuthException (''project '' @ project @ '' not allowed for this user'')
                            UNAUTHORIZED)
                else Inr project)
         else Inr project)
      else case u_projects u of [] \<Rightarrow> Inl IndexError | p # _ \<Rightarrow> Inr p)"

definition internal_session_admin ::
  "(string \<Rightarrow> project_key) \<Rightarrow> string \<Rightarrow> project_row list \<Rightarrow> error + bool" where
  "internal_session_admin id_field project projects =
     (if project = ''admin'' then Inr True
      else case db_get_one (project_filter id_field project) projects of
             Inl e \<Rightarrow> Inl e
           | Inr proj \<Rightarrow> Inr (case p_admin proj of None \<Rightarrow> False | Some a \<Rightarrow> a))"

text \<open>
  \<^verbatim>\<open>_internal_new_token(self, session, indata, remote)\<close>. \<open>now\<close> is the clock read at
  entry and \<open>token_id\<close> the 32 random characters drawn for the token.
\<close>

definition internal_new_token ::
  "(string \<Rightarrow> string) \<Rightarrow> (string \<Rightarrow> project_key) \<Rightarrow> real \<Rightarrow> string \<Rightarrow> caller_session option
     \<Rightarrow> indata \<Rightarrow> remote \<Rightarrow> auth_state \<Rightarrow> (error + session) \<times> auth_state" where
  "internal_new_token sha256_hex id_field now token_id sess ind rem st =
     (case internal_user_content sha256_hex sess ind (db_users st) of
        Inl e \<Rightarrow> (Inl e, st)
      | Inr u \<Rightarrow>
     (case internal_project_id id_field ind u (db_projects st) of
        Inl e \<Rightarrow> (Inl e, st)
      | Inr project \<Rightarrow>
     (case internal_session_admin id_field project (db_projects st) of
        Inl e \<Rightarrow> (Inl e, st)
      | Inr session_admin \<Rightarrow>
          (let new_session =
                 \<lparr> sid = token_id, issued_at = now, expires = now + 3600,
                   project_id = project, username = Some (u_username u),
                   remote_port = r_port rem, remote_host = remote_host_of rem,
                   admin = session_admin \<rparr>;
               st1 = st\<lparr> tokens_cache := (tokens_cache st)(token_id \<mapsto> new_session),
                         db_tokens := db_tokens st @ [new_session] \<rparr>
           in (Inr new_session, internal_tokens_prune now (Some now) st1)))))"

text \<open>
  \<^verbatim>\<open>new_token(self, session, indata, remote)\<close>. In delegated mode the backend is asked to
  authenticate; the call is logged with the arguments as the code passes them:
  \<^verbatim>\<open>user=indata.get("username"), password=indata.get("username"),
token=current_token, project=indata.get("project_id")\<close>.
\<close>

definition new_token ::
  "config \<Rightarrow> backend \<Rightarrow> (string \<Rightarrow> string) \<Rightarrow> (string \<Rightarrow> project_key) \<Rightarrow> real \<Rightarrow> string
     \<Rightarrow> caller_session option \<Rightarrow> indata \<Rightarrow> remote \<Rightarrow> auth_state \<Rightarrow> (error + session) \<times> auth_state" where
  "new_token cfg be sha256_hex id_field now token_id sess ind rem st =
     (if cfg_backend cfg = ''internal''
      then internal_new_token sha256_hex id_field now token_id sess ind rem st
      else
        (let current_token = (case sess of None \<Rightarrow> None | Some cs \<Rightarrow> cs_token cs);
             call = Authenticate (in_username ind) (in_username ind) current_token
                      (in_project_id ind);
             st1 = st\<lparr> backend_calls := backend_calls st @ [call] \<rparr>
         in case be_authenticate be (backend_calls st) (in_username ind) (in_username ind)
                   current_token (in_project_id ind) of
              Inl e \<Rightarrow> (Inl e, st1)
            | Inr ti \<Rightarrow>
                (case (if truthy (ti_username ti) then Inr (ti_username ti)
                       else case sess of None \<Rightarrow> Inl AttributeError
                                       | Some cs \<Rightarrow> Inr (cs_username cs)) of
                   Inl e \<Rightarrow> (Inl e, st1)
                 | Inr name \<Rightarrow>
                     (let new_session =
                            \<lparr> sid = ti_id ti, issued_at = now,
                              expires = (case ti_expires ti of None \<Rightarrow> now + 3600 | Some e \<Rightarrow> e),
                              project_id = ti_project_id ti, username = name,
                              remote_port = r_port rem, remote_host = remote_host_of rem,
                              admin = (ti_project_name ti = Some ''admin'') \<rparr>
                      in (Inr new_session,
                          st1\<lparr> tokens_cache := (tokens_cache st1)(ti_id ti \<mapsto> new_session) \<rparr>)))))"

subsection \<open>Revoking tokens\<close>

text \<open>
  \<^verbatim>\<open>_internal_del_token\<close>: the cache entry is popped first, then the row is deleted from
  the store; a \<^verbatim>\<open>DbException\<close> with NOT\_FOUND becomes an \<^verbatim>\<open>AuthException\<close>.
\<close>

definition internal_del_token :: "string \<Rightarrow> auth_state \<Rightarrow> (error + string) \<times> auth_state" where
  "internal_del_token token_id st =
     (let st1 = st\<lparr> tokens_cache := (tokens_cache st)(token_id := None) \<rparr>
      in case db_del_one (\<lambda>s. sid s = token_id) (db_tokens st1) of
           Inl (DbException m c) \<Rightarrow>
             (if c = NOT_FOUND
              then (Inl (AuthException (''Token '' @ [CHR 0x27] @ token_id @ [CHR 0x27] @ '' not found'')
                           NOT_FOUND), st1)
              else (Inl (DbException m c), st1))
         | Inl e \<Rightarrow> (Inl e, st1)
         | Inr rows \<Rightarrow>
             (Inr (''token '' @ [CHR 0x27] @ token_id @ [CHR 0x27] @ '' deleted''),
              st1\<lparr> db_tokens := rows \<rparr>))"

text \<open>
  \<^verbatim>\<open>del_token(self, token)\<close>. In delegated mode:
  \<^verbatim>\<open>try:
    self.backend.revoke_token(token)
    del self.tokens_cache[token]
    return "token '{}' deleted".format(token)
except KeyError:
    raise AuthException("Token '{}' not found".format(token), http_code=HTTPStatus.NOT_FOUND)\<close>
\<close>

definition del_token :: "config \<Rightarrow> backend \<Rightarrow> string \<Rightarrow> auth_state \<Rightarrow> (error + string) \<times> auth_state" where
  "del_token cfg be token st =
     (if cfg_backend cfg = ''internal'' then internal_del_token token st
      else
        (let st1 = st\<lparr> backend_calls := backend_calls st @ [RevokeToken token] \<rparr>;
             not_found = AuthException (''Token '' @ [CHR 0x27] @ token @ [CHR 0x27] @ '' not found'')
                           NOT_FOUND
         in case be_revoke_token be (backend_calls st) token of
              Inl KeyError \<Rightarrow> (Inl not_found, st1)
            | Inl e \<Rightarrow> (Inl e, st1)
            | Inr _ \<Rightarrow>
                (case tokens_cache st1 token of
                   None \<Rightarrow> (Inl not_found, st1)
                 | Some _ \<Rightarrow>
                     (Inr (''token '' @ [CHR 0x27] @ token @ [CHR 0x27] @ '' deleted''),
                      st1\<lparr> tokens_cache := (tokens_cache st1)(token := None) \<rparr>))))"

subsection \<open>String operations of the source\<close>

text \<open>\<^verbatim>\<open>s.split(sep)\<close> for a one-character separator: never empty, keeps empty pieces.\<close>

fun split_on :: "char \<Rightarrow> string \<Rightarrow> string list" where
  "split_on sep [] = [[]]"
| "split_on sep (c # cs) =
     (if c = sep then [] # split_on sep cs
      else case split_on sep cs of
             [] \<Rightarrow> [[c]]
           | w # ws \<Rightarrow> (c # w) # ws)"

text \<open>
  \<^verbatim>\<open>s.split()\<close>: the maximal runs of characters that are not white space (for ASCII:
  the codes 9 to 13 and 28 to 32).
\<close>

definition is_space :: "char \<Rightarrow> bool" where
  "is_space c = (let n = (of_char c :: nat) in (9 \<le> n \<and> n \<le> 13) \<or> (28 \<le> n \<and> n \<le> 32))"

fun split_spaces :: "string \<Rightarrow> string list" where
  "split_spaces [] = [[]]"
| "split_spaces (c # cs) =
     (if is_space c then [] # split_spaces cs
      else case split_spaces cs of
             [] \<Rightarrow> [[c]]
           | w # ws \<Rightarrow> (c # w) # ws)"

definition split_ws :: "string \<Rightarrow> string list" where
  "split_ws s = filter (\<lambda>w. w \<noteq> []) (split_spaces s)"

text \<open>\<^verbatim>\<open>sep.join(parts)\<close>\<close>

fun join_with :: "string \<Rightarrow> string list \<Rightarrow> string" where
  "join_with sep [] = []"
| "join_with sep [w] = w"
| "join_with sep (w # ws) = w @ sep @ join_with sep ws"

text \<open>\<^verbatim>\<open>a in b\<close> on strings: \<open>a\<close> occurs in \<open>b\<close> as a contiguous piece.\<close>

fun is_substring :: "string \<Rightarrow> string \<Rightarrow> bool" where
  "is_substring a [] = (a = [])"
| "is_substring a (c # cs) = (prefix a (c # cs) \<or> is_substring a cs)"

text \<open>\<^verbatim>\<open>s.lower()\<close> on ASCII letters.\<close>

definition lower_char :: "char \<Rightarrow> char" where
  "lower_char c =
     (case map_of (zip ''ABCDEFGHIJKLMNOPQRSTUVWXYZ'' ''abcdefghijklmnopqrstuvwxyz'') c of
        None \<Rightarrow> c
      | Some l \<Rightarrow> l)"

definition lower :: "string \<Rightarrow> string" where
  "lower s = map lower_char s"

text \<open>\<^verbatim>\<open>"<" in part and ">" in part\<close>: the segment is a placeholder.\<close>

definition is_placeholder :: "string \<Rightarrow> bool" where
  "is_placeholder part = (CHR ''<'' \<in> set part \<and> CHR ''>'' \<in> set part)"

subsection \<open>URL resolution\<close>

text \<open>
  \<^verbatim>\<open>filtered_keys = [key for key in self.resources_to_operations_mapping.keys()
                 if method in key.split()[0]]\<close>
  A key with no word raises \<^verbatim>\<open>IndexError\<close>.
\<close>

fun keys_of_method :: "string \<Rightarrow> string list \<Rightarrow> error + string list" where
  "keys_of_method method [] = Inr []"
| "keys_of_method method (key # keys) =
     (case split_ws key of
        [] \<Rightarrow> Inl IndexError
      | m # _ \<Rightarrow>
          (case keys_of_method method keys of
             Inl e \<Rightarrow> Inl e
           | Inr ks \<Rightarrow> Inr (if is_substring method m then key # ks else ks)))"

text \<open>
  The body of the inner loop: whether \<open>tmp_key\<close>, whose template splits into
  \<open>splitted\<close>, is kept at index \<open>idx\<close>, where the request has \<open>n\<close> segments and the
  segment \<open>path_part\<close> at \<open>idx\<close>.
\<close>

definition keeps :: "nat \<Rightarrow> nat \<Rightarrow> string \<Rightarrow> string list \<Rightarrow> bool" where
  "keeps n idx path_part splitted =
     (if idx \<ge> length splitted then False
      else if is_placeholder (splitted ! idx) then
        (if splitted ! idx = ''<artifactPath>'' then True
         else if idx = n - 1 \<and> n \<noteq> length splitted then False
         else True)
      else if splitted ! idx = path_part then
        (if idx = n - 1 \<and> n \<noteq> length splitted then False else True)
      else False)"

text \<open>
  The inner loop \<^verbatim>\<open>for tmp_key in filtered_keys\<close>, which builds \<^verbatim>\<open>tmp_keys\<close>;
  \<^verbatim>\<open>tmp_key.split()[1]\<close> raises \<^verbatim>\<open>IndexError\<close> on a key of one word.
\<close>

fun scan_keys :: "nat \<Rightarrow> nat \<Rightarrow> string \<Rightarrow> string list \<Rightarrow> error + string list" where
  "scan_keys n idx path_part [] = Inr []"
| "scan_keys n idx path_part (tmp_key # keys) =
     (case split_ws tmp_key of
        m # template # _ \<Rightarrow>
          (case scan_keys n idx path_part keys of
             Inl e \<Rightarrow> Inl e
           | Inr ks \<Rightarrow>
               Inr (if keeps n idx path_part (split_on CHR ''/'' template)
                    then tmp_key # ks else ks))
      | _ \<Rightarrow> Inl IndexError)"

text \<open>
  The outer loop \<^verbatim>\<open>for idx, path_part in enumerate(normalized_url_splitted)\<close> over the
  segments from \<open>idx\<close> on, with its exit
  \<^verbatim>\<open>if len(filtered_keys) == 1 and filtered_keys[0].split("/")[-1] == "<artifactPath>": break\<close>
\<close>

fun scan_segments :: "nat \<Rightarrow> nat \<Rightarrow> string list \<Rightarrow> string list \<Rightarrow> error + string list" where
  "scan_segments n idx [] filtered_keys = Inr filtered_keys"
| "scan_segments n idx (path_part # rest) filtered_keys =
     (case scan_keys n idx path_part filtered_keys of
        Inl e \<Rightarrow> Inl e
      | Inr tmp_keys \<Rightarrow>
          (case tmp_keys of
             [k] \<Rightarrow> if last (split_on CHR ''/'' k) = ''<artifactPath>'' then Inr tmp_keys
                    else scan_segments n (Suc idx) rest tmp_keys
           | _ \<Rightarrow> scan_segments n (Suc idx) rest tmp_keys))"

text \<open>
  The extraction loop over the segments of the winning template from \<open>idx\<close> on;
  \<^verbatim>\<open>normalized_url_splitted[idx]\<close> raises \<^verbatim>\<open>IndexError\<close> past the end of the request.
\<close>

fun extract_parameters ::
  "string list \<Rightarrow> nat \<Rightarrow> string list \<Rightarrow> (string \<times> string) list \<Rightarrow> error + (string \<times> string) list" where
  "extract_parameters url idx [] parameters = Inr parameters"
| "extract_parameters url idx (path_part # rest) parameters =
     (if is_placeholder path_part then
        (if path_part = ''<artifactPath>''
         then extract_parameters url (Suc idx) rest
                (AList.update (butlast (tl path_part)) (join_with ''/'' (drop idx url)) parameters)
         else if idx < length url
         then extract_parameters url (Suc idx) rest
                (AList.update (butlast (tl path_part)) (url ! idx) parameters)
         else Inl IndexError)
      else extract_parameters url (Suc idx) rest parameters)"

text \<open>\<^verbatim>\<open>_normalize_url(self, url, method)\<close>, on the keys of the resource map.\<close>

definition normalize_url ::
  "(string \<times> string) list \<Rightarrow> string \<Rightarrow> string \<Rightarrow> error + (string \<times> (string \<times> string) list)" where
  "normalize_url mapping url method =
     (let normalized_url_splitted = split_on CHR ''/'' (takeWhile (\<lambda>c. c \<noteq> CHR ''?'') url)
      in case keys_of_method method (map fst mapping) of
           Inl e \<Rightarrow> Inl e
         | Inr filtered_keys \<Rightarrow>
             (case scan_segments (length normalized_url_splitted) 0 normalized_url_splitted
                     filtered_keys of
                Inl e \<Rightarrow> Inl e
              | Inr [] \<Rightarrow>
                  Inl (AuthException
                         (''Cannot make an authorization decision. URL not found. URL: '' @ url)
                         UNAUTHORIZED)
              | Inr [filtered_key] \<Rightarrow>
                  (case split_ws filtered_key of
                     m # template # _ \<Rightarrow>
                       (case extract_parameters normalized_url_splitted 0
                               (split_on CHR ''/'' template) [] of
                          Inl e \<Rightarrow> Inl e
                        | Inr parameters \<Rightarrow> Inr (filtered_key, parameters))
                   | _ \<Rightarrow> Inl IndexError)
              | Inr _ \<Rightarrow>
                  Inl (AuthException
                         (''Cannot make an authorization decision. Multiple URLs found. URL: '' @ url)
                         UNAUTHORIZED)))"

subsection \<open>The authorization decision\<close>

text \<open>
  \<^verbatim>\<open>check_permissions(self, session, url, method)\<close>:
  \<^verbatim>\<open>key, parameters = self._normalize_url(url, method)
operation = self.resources_to_operations_mapping[key]
roles_required = self.operation_to_allowed_roles[operation]
roles_allowed = self.backend.get_user_role_list(session["id"])
if "anonymous" in roles_required:
    return
for role in roles_allowed:
    if role in roles_required:
        return
raise AuthException("Access denied: lack of permissions.")\<close>
  Iterating over \<^verbatim>\<open>None\<close> raises \<^verbatim>\<open>TypeError\<close>.
\<close>

definition check_permissions ::
  "backend \<Rightarrow> session \<Rightarrow> string \<Rightarrow> string \<Rightarrow> auth_state \<Rightarrow> (error + unit) \<times> auth_state" where
  "check_permissions be sess url method st =
     (case normalize_url (resources_to_operations_mapping st) url method of
        Inl e \<Rightarrow> (Inl e, st)
      | Inr (key, parameters) \<Rightarrow>
     (case map_of (resources_to_operations_mapping st) key of
        None \<Rightarrow> (Inl KeyError, st)
      | Some operation \<Rightarrow>
     (case map_of (operation_to_allowed_roles st) operation of
        None \<Rightarrow> (Inl KeyError, st)
      | Some roles_required \<Rightarrow>
          (let st1 = st\<lparr> backend_calls := backend_calls st @ [GetUserRoleList (sid sess)] \<rparr>
           in case be_get_user_role_list be (backend_calls st) (sid sess) of
                Inl e \<Rightarrow> (Inl e, st1)
              | Inr roles_allowed \<Rightarrow>
                  if VStr ''anonymous'' \<in> set roles_required then (Inr (), st1)
                  else (case roles_allowed of
                          None \<Rightarrow> (Inl TypeError, st1)
                        | Some roles \<Rightarrow>
                            if \<exists>role \<in> set roles. VStr role \<in> set roles_required
                            then (Inr (), st1)
                            else (Inl (AuthException ''Access denied: lack of permissions.''
                                         UNAUTHORIZED), st1))))))"

subsection \<open>Validating a token (internal mode)\<close>

text \<open>
  What \<^verbatim>\<open>authorize\<close> returns: a session of the cache or the store, or the fixed
  dictionary of the test bypass, which has the keys \<^verbatim>\<open>id\<close>, \<^verbatim>\<open>project_id\<close>,
  \<^verbatim>\<open>username\<close> and \<^verbatim>\<open>admin\<close> only.
\<close>

datatype authorized =
    Session session
  | FakeSession string string string bool

text \<open>
  The handler \<^verbatim>\<open>except AuthException\<close> of \<^verbatim>\<open>_internal_authorize\<close>:
  \<^verbatim>\<open>if self.config["global"].get("test.user_not_authorized"):
    return {"id": "fake-token-id-for-test",
            "project_id": self.config["global"].get("test.project_not_authorized", "admin"),
            "username": self.config["global"]["test.user_not_authorized"], "admin": True}
else:
    raise\<close>
\<close>

definition test_bypass :: "config \<Rightarrow> error \<Rightarrow> error + authorized" where
  "test_bypass cfg e =
     (case cfg_test_user_not_authorized cfg of
        None \<Rightarrow> Inl e
      | Some user \<Rightarrow>
          if user = [] then Inl e
          else Inr (FakeSession ''fake-token-id-for-test''
                      (case cfg_test_project_not_authorized cfg of
                         None \<Rightarrow> ''admin'' | Some project \<Rightarrow> project)
                      user True))"

text \<open>
  \<^verbatim>\<open>_internal_authorize(self, token_id)\<close>; \<open>now\<close> is the clock. The handler above
  covers the two \<^verbatim>\<open>AuthException\<close>s raised in the body of the \<^verbatim>\<open>try\<close>; the one raised
  from the \<^verbatim>\<open>DbException\<close> handler is not covered by it.
\<close>

definition internal_authorize ::
  "config \<Rightarrow> real \<Rightarrow> string option \<Rightarrow> auth_state \<Rightarrow> (error + authorized) \<times> auth_state" where
  "internal_authorize cfg now token st =
     (if \<not> truthy token
      then (test_bypass cfg
              (AuthException ''Needed a token or Authorization http header'' UNAUTHORIZED), st)
      else
        (let token_id = (case token of None \<Rightarrow> [] | Some t \<Rightarrow> t);
             cached = tokens_cache st token_id;
             expired = (case cached of None \<Rightarrow> False | Some s \<Rightarrow> expires s < now);
             st1 = (if expired then st\<lparr> tokens_cache := (tokens_cache st)(token_id := None) \<rparr>
                    else st)
         in case (if expired then None else cached) of
              Some s \<Rightarrow> (Inr (Session s), st1)
            | None \<Rightarrow>
                (case db_get_one (\<lambda>s. sid s = token_id) (db_tokens st1) of
                   Inl (DbException m c) \<Rightarrow>
                     (if c = NOT_FOUND
                      then (Inl (AuthException ''Invalid Token or Authorization http header''
                                   UNAUTHORIZED), st1)
                      else (Inl (DbException m c), st1))
                 | Inl e \<Rightarrow> (Inl e, st1)
                 | Inr s \<Rightarrow>
                     if expires s < now
                     then (test_bypass cfg
                             (AuthException ''Expired Token or Authorization http header''
                                UNAUTHORIZED), st1)
                     else (Inr (Session s),
                           st1\<lparr> tokens_cache := (tokens_cache st1)(token_id \<mapsto> s) \<rparr>))))"

subsection \<open>The request gate\<close>

text \<open>
  What \<^verbatim>\<open>authorize\<close> reads of the request: the \<^verbatim>\<open>Authorization\<close> header,
  \<^verbatim>\<open>cherrypy.request.path_info\<close>, \<^verbatim>\<open>cherrypy.request.method\<close> and the setting
  \<^verbatim>\<open>auth.allow_basic_authentication\<close>.
\<close>

record request =
  req_authorization :: "string option"
  req_path_info :: string
  req_method :: string
  req_allow_basic_authentication :: bool

text \<open>Step 1: the bearer token and the basic credentials of the header.\<close>

definition header_credentials :: "request \<Rightarrow> string option \<times> string option" where
  "header_credentials req =
     (if truthy (req_authorization req) then
        (case split_on CHR '' '' (case req_authorization req of None \<Rightarrow> [] | Some a \<Rightarrow> a) of
           [] \<Rightarrow> (None, None)
         | w # ws \<Rightarrow>
             if lower w = ''bearer'' then (Some (last (w # ws)), None)
             else if lower w = ''basic'' then (None, Some (last (w # ws)))
             else (None, None))
      else (None, None))"

text \<open>
  Steps 2 and 3: without a bearer token, the stored session reference is used (unless it
  is \<^verbatim>\<open>"logout"\<close>); failing that, basic credentials are exchanged for a token by
  \<^verbatim>\<open>self.new_token(None, {"username": user, "password": passwd})\<close>, a call that lacks
  the parameter \<^verbatim>\<open>remote\<close> of \<^verbatim>\<open>new_token(self, session, indata, remote)\<close> and so
  raises \<^verbatim>\<open>TypeError\<close>.
\<close>

definition request_token :: "request \<Rightarrow> auth_state \<Rightarrow> error + string option" where
  "request_token req st =
     (case header_credentials req of
        (token, user_passwd64) \<Rightarrow>
          if truthy token then Inr token
          else if truthy (http_session_authorization st)
          then Inr (if http_session_authorization st = Some ''logout'' then None
                    else http_session_authorization st)
          else if truthy user_passwd64 \<and> req_allow_basic_authentication req
          then Inl TypeError
          else Inr token)"

text \<open>
  The inner handler of the delegated branch:
  \<^verbatim>\<open>except AuthException:
    self.del_token(token)
    raise\<close>
\<close>

definition revoke_on_failure ::
  "config \<Rightarrow> backend \<Rightarrow> string \<Rightarrow> error \<Rightarrow> auth_state \<Rightarrow> (error + authorized) \<times> auth_state" where
  "revoke_on_failure cfg be token e st =
     (case e of
        AuthException m c \<Rightarrow>
          (case del_token cfg be token st of
             (Inl e', st') \<Rightarrow> (Inl e', st')
           | (Inr _, st') \<Rightarrow> (Inl e, st'))
      | _ \<Rightarrow> (Inl e, st))"

text \<open>
  The delegated branch:
  \<^verbatim>\<open>if not token:
    raise AuthException("Needed a token or Authorization http header", ...)
try:
    self.backend.validate_token(token)
    self.check_permissions(self.tokens_cache[token], cherrypy.request.path_info,
                           cherrypy.request.method)
    return deepcopy(self.tokens_cache[token])
except AuthException: ...\<close>
\<close>

definition delegated_authorize ::
  "config \<Rightarrow> backend \<Rightarrow> request \<Rightarrow> string option \<Rightarrow> auth_state \<Rightarrow> (error + authorized) \<times> auth_state" where
  "delegated_authorize cfg be req tok st =
     (if \<not> truthy tok
      then (Inl (AuthException ''Needed a token or Authorization http header'' UNAUTHORIZED), st)
      else
        (let token = (case tok of None \<Rightarrow> [] | Some t \<Rightarrow> t);
             st1 = st\<lparr> backend_calls := backend_calls st @ [ValidateToken token] \<rparr>
         in case be_validate_token be (backend_calls st) token of
              Inl e \<Rightarrow> revoke_on_failure cfg be token e st1
            | Inr _ \<Rightarrow>
                (case tokens_cache st1 token of
                   None \<Rightarrow> (Inl KeyError, st1)
                 | Some s \<Rightarrow>
                     (case check_permissions be s (req_path_info req) (req_method req) st1 of
                        (Inl e, st2) \<Rightarrow> revoke_on_failure cfg be token e st2
                      | (Inr _, st2) \<Rightarrow>
                          (case tokens_cache st2 token of
                             None \<Rightarrow> (Inl KeyError, st2)
                           | Some s' \<Rightarrow> (Inr (Session s'), st2))))))"

text \<open>
  \<^verbatim>\<open>authorize(self)\<close>, with the outer handler
  \<^verbatim>\<open>except AuthException as e:
    if cherrypy.session.get('Authorization'):
        del cherrypy.session['Authorization']
    cherrypy.response.headers["WWW-Authenticate"] = 'Bearer realm="{}"'.format(e)
    raise AuthException(str(e))\<close>
\<close>

definition authorize ::
  "config \<Rightarrow> backend \<Rightarrow> real \<Rightarrow> request \<Rightarrow> auth_state \<Rightarrow> (error + authorized) \<times> auth_state" where
  "authorize cfg be now req st =
     (case request_token req st of
        Inl e \<Rightarrow> (Inl e, st)
      | Inr token \<Rightarrow>
          (case (if cfg_backend cfg = ''internal'' then internal_authorize cfg now token st
                 else delegated_authorize cfg be req token st) of
             (Inl (AuthException m c), st') \<Rightarrow>
               (Inl (AuthException m UNAUTHORIZED),
                st'\<lparr> http_session_authorization :=
                       (if truthy (http_session_authorization st') then None
                        else http_session_authorization st'),
                     www_authenticate := Some (''Bearer realm='' @ [CHR 0x22] @ m @ [CHR 0x22]) \<rparr>)
           | (r, st') \<Rightarrow> (r, st')))"

subsection \<open>Building the permission catalog\<close>

text \<open>
  The two configuration documents as \<^verbatim>\<open>yaml.load\<close> returns them: dictionaries are lists
  of items in document order. The resource map binds \<^verbatim>\<open>"<METHOD> <URL>"\<close> to an operation
  name; a role of the role map has a name and a dictionary from operation prefixes to
  YAML values, of which only booleans are used.
\<close>

datatype yval = YBool bool | YOther

record role_doc =
  rd_role :: string
  rd_operations :: "(string \<times> yval) list"

text \<open>
  \<^verbatim>\<open>for resource, operation in resources_to_operations_yaml[...].items():
    if operation not in operations:
        operations.append(operation)
    self.resources_to_operations_mapping[resource] = operation\<close>
\<close>

fun read_resources ::
  "(string \<times> string) list \<Rightarrow> string list \<Rightarrow> (string \<times> string) list
     \<Rightarrow> string list \<times> (string \<times> string) list" where
  "read_resources [] operations mapping = (operations, mapping)"
| "read_resources ((resource, operation) # rest) operations mapping =
     read_resources rest
       (if operation \<notin> set operations then operations @ [operation] else operations)
       (AList.update resource operation mapping)"

text \<open>
  The loop over the operations of one role, which fills \<^verbatim>\<open>role_ops\<close> and \<^verbatim>\<open>root\<close>.
  On the empty key, \<^verbatim>\<open>operation[-1]\<close> raises \<^verbatim>\<open>IndexError\<close>.
\<close>

fun read_operations ::
  "(string \<times> yval) list \<Rightarrow> (string \<times> bool) list \<Rightarrow> bool option
     \<Rightarrow> error + ((string \<times> bool) list \<times> bool option)" where
  "read_operations [] role_ops root_val = Inr (role_ops, root_val)"
| "read_operations ((operation, YOther) # rest) role_ops root_val =
     read_operations rest role_ops root_val"
| "read_operations ((operation, YBool is_allowed) # rest) role_ops root_val =
     (if operation = '':'' then read_operations rest role_ops (Some is_allowed)
      else if operation = [] then Inl IndexError
      else if length operation \<noteq> 1 \<and> last operation = CHR '':''
      then read_operations rest role_ops root_val
      else if operation \<notin> set (map fst role_ops)
      then read_operations rest (role_ops @ [(operation, is_allowed)]) root_val
      else read_operations rest role_ops root_val)"

text \<open>
  The record of one role: \<^verbatim>\<open>_admin\<close>, \<^verbatim>\<open>name\<close> and \<^verbatim>\<open>root\<close>, then one item per
  operation of \<^verbatim>\<open>role_ops\<close> (\<^verbatim>\<open>operation_to_roles_item[operation] = value\<close>).
\<close>

definition operation_to_roles_item ::
  "real \<Rightarrow> string \<Rightarrow> bool \<Rightarrow> (string \<times> bool) list \<Rightarrow> (string \<times> dbval) list" where
  "operation_to_roles_item now role root_val role_ops =
     fold (\<lambda>(operation, v) item. AList.update operation (VBool v) item) role_ops
       [(''_admin'', VAdmin now now), (''name'', VStr role), (''root'', VBool root_val)]"

text \<open>
  The identifier of the role in the backend:
  \<^verbatim>\<open>keystone_id = [role for role in self.backend.get_role_list()
               if role["name"] == role_with_operations["role"]]
if keystone_id:
    keystone_id = keystone_id[0]
else:
    keystone_id = self.backend.create_role(role_with_operations["role"])\<close>
\<close>

definition keystone_id :: "backend \<Rightarrow> string \<Rightarrow> auth_state \<Rightarrow> (error + string) \<times> auth_state" where
  "keystone_id be role st =
     (let st1 = st\<lparr> backend_calls := backend_calls st @ [GetRoleList] \<rparr>
      in case be_get_role_list be (backend_calls st) of
           Inl e \<Rightarrow> (Inl e, st1)
         | Inr role_list \<Rightarrow>
             (case filter (\<lambda>r. fst r = role) role_list of
                r # _ \<Rightarrow> (Inr (snd r), st1)
              | [] \<Rightarrow>
                  (let st2 = st1\<lparr> backend_calls := backend_calls st1 @ [CreateRole role] \<rparr>
                   in case be_create_role be (backend_calls st1) role of
                        Inl e \<Rightarrow> (Inl e, st2)
                      | Inr i \<Rightarrow> (Inr i, st2))))"

text \<open>
  The loop over the roles of the role map, run when the collection
  \<^verbatim>\<open>roles_operations\<close> is empty. \<open>roles\<close> are the names seen so far, \<open>clock i\<close> is
  what \<^verbatim>\<open>time()\<close> returns for the \<open>i\<close>-th role of the document.
\<close>

fun load_roles ::
  "config \<Rightarrow> backend \<Rightarrow> (nat \<Rightarrow> real) \<Rightarrow> nat \<Rightarrow> role_doc list \<Rightarrow> string list \<Rightarrow> auth_state
     \<Rightarrow> (error + unit) \<times> auth_state" where
  "load_roles cfg be clock i [] roles st = (Inr (), st)"
| "load_roles cfg be clock i (role_with_operations # rest) roles st =
     (if rd_role role_with_operations \<in> set roles
      then load_roles cfg be clock (Suc i) rest roles st
      else if rd_operations role_with_operations = []
      then load_roles cfg be clock (Suc i) rest (roles @ [rd_role role_with_operations]) st
      else
        (case read_operations (rd_operations role_with_operations) [] None of
           Inl e \<Rightarrow> (Inl e, st)
         | Inr (role_ops, root_val) \<Rightarrow>
             (let item = operation_to_roles_item (clock i) (rd_role role_with_operations)
                           (root_val = Some True) role_ops
              in if cfg_backend cfg \<noteq> ''internal'' \<and> rd_role role_with_operations \<noteq> ''anonymous''
                 then
                   (case keystone_id be (rd_role role_with_operations) st of
                      (Inl e, st1) \<Rightarrow> (Inl e, st1)
                    | (Inr ident, st1) \<Rightarrow>
                        load_roles cfg be clock (Suc i) rest
                          (roles @ [rd_role role_with_operations])
                          (st1\<lparr> db_roles_operations := db_roles_operations st1
                                   @ [AList.update ''_id'' (VStr ident) item] \<rparr>))
                 else
                   load_roles cfg be clock (Suc i) rest (roles @ [rd_role role_with_operations])
                     (st\<lparr> db_roles_operations := db_roles_operations st @ [item] \<rparr>))))"

text \<open>\<^verbatim>\<open>ignore_fields = ["_id", "_admin", "name", "root"]\<close>\<close>

definition ignore_fields :: "string list" where
  "ignore_fields = [''_id'', ''_admin'', ''name'', ''root'']"

text \<open>\<^verbatim>\<open>x[0].count(":")\<close>, the key of the sort.\<close>

definition colons :: "string \<times> dbval \<Rightarrow> nat" where
  "colons x = count_list (fst x) CHR '':''"

text \<open>
  One override applied to the table of a role:
  \<^verbatim>\<open>match = list(filter(lambda x: x.find(oper[0]) == 0, record_permissions.keys()))
for m in match:
    record_permissions[m] = oper[1]\<close>
\<close>

definition apply_override :: "string \<times> dbval \<Rightarrow> (string \<times> dbval) list \<Rightarrow> (string \<times> dbval) list" where
  "apply_override oper record_permissions =
     fold (\<lambda>m table. AList.update m (snd oper) table)
       (filter (\<lambda>x. prefix (fst oper) x) (map fst record_permissions))
       record_permissions"

text \<open>
  \<^verbatim>\<open>operations_joined = [(oper, value) for oper, value in record.items()
                     if oper not in ignore_fields]
operations_joined.sort(key=lambda x: x[0].count(":"))\<close>
  The sort of Python lists is stable, as \<open>sort_key\<close> is.
\<close>

definition operations_joined :: "(string \<times> dbval) list \<Rightarrow> (string \<times> dbval) list" where
  "operations_joined record =
     sort_key colons (filter (\<lambda>x. fst x \<notin> set ignore_fields) record)"

text \<open>
  The table \<^verbatim>\<open>record_permissions\<close> of one record, after all its overrides.
  \<^verbatim>\<open>record["root"]\<close> is read once per operation, so a record without \<^verbatim>\<open>root\<close> raises
  \<^verbatim>\<open>KeyError\<close> only when there is an operation.
\<close>

definition record_permissions ::
  "string list \<Rightarrow> (string \<times> dbval) list \<Rightarrow> error + (string \<times> dbval) list" where
  "record_permissions operations record =
     (if operations = [] then Inr (fold apply_override (operations_joined record) [])
      else case map_of record ''root'' of
             None \<Rightarrow> Inl KeyError
           | Some root_val \<Rightarrow>
               Inr (fold apply_override (operations_joined record)
                      (map (\<lambda>oper. (oper, root_val)) operations)))"

text \<open>
  The loop over the records, which adds the name of each record to the operations its
  table allows:
  \<^verbatim>\<open>allowed_operations = [k for k, v in record_permissions.items() if v is True]
for allowed_op in allowed_operations:
    permissions[allowed_op].append(record["name"])\<close>
\<close>

fun build_permissions ::
  "string list \<Rightarrow> (string \<times> dbval) list list \<Rightarrow> (string \<times> dbval list) list
     \<Rightarrow> error + (string \<times> dbval list) list" where
  "build_permissions operations [] permissions = Inr permissions"
| "build_permissions operations (record # records) permissions =
     (case record_permissions operations record of
        Inl e \<Rightarrow> Inl e
      | Inr table \<Rightarrow>
          (let allowed_operations = map fst (filter (\<lambda>x. snd x = VBool True) table)
           in if allowed_operations = [] then build_permissions operations records permissions
              else case map_of record ''name'' of
                     None \<Rightarrow> Inl KeyError
                   | Some name \<Rightarrow>
                       build_permissions operations records
                         (fold (\<lambda>allowed_op perms.
                                  AList.map_entry allowed_op (\<lambda>role_list. role_list @ [name]) perms)
                            allowed_operations permissions)))"

text \<open>
  \<^verbatim>\<open>init_db(self, target_version='1.0')\<close> on the parsed resource map and role map. In
  internal mode it returns at once. The last step is
  \<^verbatim>\<open>self.backend.assign_role_to_user("admin", "admin", "system_admin")\<close>.
\<close>

definition init_db ::
  "config \<Rightarrow> backend \<Rightarrow> (nat \<Rightarrow> real) \<Rightarrow> (string \<times> string) list \<Rightarrow> role_doc list \<Rightarrow> auth_state
     \<Rightarrow> (error + unit) \<times> auth_state" where
  "init_db cfg be clock resources_to_operations roles_to_operations st =
     (if cfg_backend cfg = ''internal'' then (Inr (), st)
      else
        (case read_resources resources_to_operations [] (resources_to_operations_mapping st) of
           (operations, mapping) \<Rightarrow>
        (case (if db_roles_operations st = []
               then load_roles cfg be clock 0 roles_to_operations []
                      (st\<lparr> resources_to_operations_mapping := mapping \<rparr>)
               else (Inr (), st\<lparr> resources_to_operations_mapping := mapping \<rparr>)) of
           (Inl e, st1) \<Rightarrow> (Inl e, st1)
         | (Inr _, st1) \<Rightarrow>
        (case build_permissions operations (db_roles_operations st1)
                (map (\<lambda>oper. (oper, [])) operations) of
           Inl e \<Rightarrow> (Inl e, st1)
         | Inr permissions \<Rightarrow>
             (let st2 = st1\<lparr> operation_to_allowed_roles :=
                               fold (\<lambda>(oper, role_list) index. AList.update oper role_list index)
                                 permissions (operation_to_allowed_roles st1),
                             backend_calls := backend_calls st1
                               @ [AssignRoleToUser ''admin'' ''admin'' ''system_admin''] \<rparr>
              in case be_assign_role_to_user be (backend_calls st1)
                        ''admin'' ''admin'' ''system_admin'' of
                   Inl e \<Rightarrow> (Inl e, st2)
                 | Inr _ \<Rightarrow> (Inr (), st2))))))"

text \<open>
  The items of a record that the build of the index reads: all but the identifier
  \<^verbatim>\<open>_id\<close> chosen by the backend and the time stamps \<^verbatim>\<open>_admin\<close>, which are both in
  \<^verbatim>\<open>ignore_fields\<close>. Used to state what the index depends on.
\<close>

definition essential :: "(string \<times> dbval) list \<Rightarrow> (string \<times> dbval) list" where
  "essential record = filter (\<lambda>x. fst x \<noteq> ''_id'' \<and> fst x \<noteq> ''_admin'') record"

subsection \<open>Example inputs\<close>

text \<open>
  Concrete configurations, backends and states on which the theorems below are
  evaluated. \<open>initial_state\<close> is the object as \<^verbatim>\<open>__init__\<close> leaves it, over an empty
  database.
\<close>

definition keystone_config :: config where
  "keystone_config =
     \<lparr> cfg_backend = ''keystone'', cfg_test_user_not_authorized = None,
       cfg_test_project_not_authorized = None \<rparr>"

definition internal_config :: config where
  "internal_config =
     \<lparr> cfg_backend = ''internal'', cfg_test_user_not_authorized = None,
       cfg_test_project_not_authorized = None \<rparr>"

definition bypass_config :: config where
  "bypass_config =
     \<lparr> cfg_backend = ''internal'', cfg_test_user_not_authorized = Some ''tester'',
       cfg_test_project_not_authorized = None \<rparr>"

definition initial_state :: auth_state where
  "initial_state =
     \<lparr> tokens_cache = Map.empty, next_db_prune_time = 0,
       resources_to_operations_mapping = [], operation_to_allowed_roles = [],
       db_tokens = [], db_users = [], db_projects = [], db_roles_operations = [],
       backend_calls = [], http_session_authorization = None, www_authenticate = None \<rparr>"

text \<open>A backend that accepts every call; its tokens carry no expiry.\<close>

definition example_token_info :: token_info where
  "example_token_info =
     \<lparr> ti_id = ''tok1'', ti_project_id = ''p1'', ti_expires = None,
       ti_username = Some ''alice'', ti_project_name = Some ''p1'' \<rparr>"

definition example_backend :: backend where
  "example_backend =
     \<lparr> be_authenticate = (\<lambda>calls user password token project. Inr example_token_info),
       be_validate_token = (\<lambda>calls token. Inr ()),
       be_revoke_token = (\<lambda>calls token. Inr ()),
       be_get_user_role_list = (\<lambda>calls token. Inr (Some [''project_viewer''])),
       be_get_role_list = (\<lambda>calls. Inr []),
       be_create_role = (\<lambda>calls role. Inr (''id-of-'' @ role)),
       be_assign_role_to_user = (\<lambda>calls user project role. Inr ()) \<rparr>"

text \<open>A backend whose tokens expired at time 500.\<close>

definition stale_backend :: backend where
  "stale_backend =
     example_backend\<lparr> be_authenticate :=
       (\<lambda>calls user password token project. Inr (example_token_info\<lparr> ti_expires := Some 500 \<rparr>)) \<rparr>"

text \<open>A backend that cannot list the roles of a user.\<close>

definition unreachable_backend :: backend where
  "unreachable_backend =
     example_backend\<lparr> be_get_user_role_list :=
       (\<lambda>calls token. Inl (AuthconnException ''backend unreachable'' BAD_GATEWAY)) \<rparr>"

definition example_remote :: remote where
  "example_remote = \<lparr> r_name = None, r_ip = Some ''10.0.0.7'', r_port = 40000 \<rparr>"

definition example_indata :: indata where
  "example_indata =
     \<lparr> in_username = Some ''alice'', in_password = Some ''secret'', in_project_id = None \<rparr>"

text \<open>A session issued at time 1000, and one that expired at 500.\<close>

definition live_session :: session where
  "live_session =
     \<lparr> sid = ''live'', issued_at = 1000, expires = 4600, project_id = ''p1'',
       username = Some ''alice'', remote_port = 40000, remote_host = Some ''10.0.0.7'',
       admin = False \<rparr>"

definition expired_session :: session where
  "expired_session =
     \<lparr> sid = ''old'', issued_at = 100, expires = 500, project_id = ''p1'',
       username = Some ''alice'', remote_port = 40000, remote_host = Some ''10.0.0.7'',
       admin = False \<rparr>"

text \<open>
  The state of an internal-mode object whose last prune ran at time 1000, so that the
  next one is due at 2800; the store holds an expired and a live token, both cached.
\<close>

definition pruned_state :: auth_state where
  "pruned_state =
     initial_state\<lparr> tokens_cache := [''live'' \<mapsto> live_session, ''old'' \<mapsto> expired_session],
                    next_db_prune_time := 2800,
                    db_tokens := [expired_session, live_session] \<rparr>"

text \<open>The resource map and request of the artifact scenario.\<close>

definition artifact_map :: "(string \<times> string) list" where
  "artifact_map = [(''GET /vnfds/<id>/artifacts/<artifactPath>'', ''vnfds:id:artifacts'')]"

definition greedy_map :: "(string \<times> string) list" where
  "greedy_map = [(''GET /a/<artifactPath>'', ''a:artifacts''), (''GET /a/<x>/c'', ''a:x:c'')]"

text \<open>A delegated-mode object with one public and one protected operation.\<close>

definition catalog_state :: auth_state where
  "catalog_state =
     initial_state\<lparr> tokens_cache := [''tok1'' \<mapsto> live_session\<lparr> sid := ''tok1'' \<rparr>],
                    resources_to_operations_mapping :=
                      [(''GET /public'', ''public''), (''GET /vnfds/<id>'', ''vnfds:id'')],
                    operation_to_allowed_roles :=
                      [(''public'', [VStr ''anonymous'']),
                       (''vnfds:id'', [VStr ''project_viewer''])] \<rparr>"

definition example_request :: request where
  "example_request =
     \<lparr> req_authorization = Some ''Bearer tok1'', req_path_info = ''/vnfds/abc123'',
       req_method = ''GET'', req_allow_basic_authentication = False \<rparr>"

text \<open>
  An internal-mode object that knows the user \<open>alice\<close> of the project \<open>admin\<close>. In
  the examples the digest \<^verbatim>\<open>sha256(...).hexdigest()\<close> is replaced by the identity, so
  the stored password is the password followed by the salt.
\<close>

definition internal_state :: auth_state where
  "internal_state =
     initial_state\<lparr> db_users :=
       [\<lparr> u_username = ''alice'', u_password = ''secret-salt'', u_salt = ''-salt'',
          u_projects = [''admin''] \<rparr>] \<rparr>"

text \<open>An internal-mode object with one live token in the cache and no resource map.\<close>

definition cached_state :: auth_state where
  "cached_state = initial_state\<lparr> tokens_cache := [''live'' \<mapsto> live_session] \<rparr>"

definition live_request :: request where
  "live_request =
     \<lparr> req_authorization = Some ''Bearer live'', req_path_info = ''/vnfds/abc123'',
       req_method = ''GET'', req_allow_basic_authentication = False \<rparr>"

text \<open>The session that \<open>stale_backend\<close> yields for a token issued at time 1000.\<close>

definition stale_session :: session where
  "stale_session =
     \<lparr> sid = ''tok1'', issued_at = 1000, expires = 500, project_id = ''p1'',
       username = Some ''alice'', remote_port = 40000, remote_host = Some ''10.0.0.7'',
       admin = False \<rparr>"

text \<open>
  The operations of a small catalog, and records of the collection \<^verbatim>\<open>roles_operations\<close>:
  a role whose overrides lie on one branch of the hierarchy, in two declaration orders,
  and a role with the sibling prefixes \<open>vnf\<close> and \<open>vnfds\<close>, in two declaration orders.
\<close>

definition catalog_operations :: "string list" where
  "catalog_operations = [''vnfds'', ''vnfds:id'', ''vnfds:id:delete'']"

definition viewer_record :: "(string \<times> dbval) list" where
  "viewer_record =
     [(''_admin'', VAdmin 1000 1000), (''name'', VStr ''project_viewer''),
      (''root'', VBool False), (''vnfds'', VBool True), (''vnfds:id:delete'', VBool False),
      (''_id'', VStr ''id-of-project_viewer'')]"

definition viewer_record_reordered :: "(string \<times> dbval) list" where
  "viewer_record_reordered =
     [(''_admin'', VAdmin 1000 1000), (''name'', VStr ''project_viewer''),
      (''root'', VBool False), (''vnfds:id:delete'', VBool False), (''vnfds'', VBool True),
      (''_id'', VStr ''id-of-project_viewer'')]"

definition sibling_record :: "(string \<times> dbval) list" where
  "sibling_record =
     [(''name'', VStr ''operator''), (''root'', VBool False),
      (''vnf'', VBool True), (''vnfds'', VBool False)]"

definition sibling_record_reordered :: "(string \<times> dbval) list" where
  "sibling_record_reordered =
     [(''name'', VStr ''operator''), (''root'', VBool False),
      (''vnfds'', VBool False), (''vnf'', VBool True)]"

text \<open>
  The two documents of the scenario of the specification, a backend that already knows the
  role \<open>project_viewer\<close>, and two clocks.
\<close>

definition example_resources :: "(string \<times> string) list" where
  "example_resources =
     [(''GET /vnfds/<id>'', ''vnfds:id''), (''DELETE /vnfds/<id>'', ''vnfds:id:delete'')]"

definition example_roles :: "role_doc list" where
  "example_roles =
     [\<lparr> rd_role = ''project_viewer'',
        rd_operations = [('':'', YBool False), (''vnfds'', YBool True),
                         (''vnfds:id:delete'', YBool False)] \<rparr>]"

definition other_backend :: backend where
  "other_backend =
     example_backend\<lparr> be_get_role_list := (\<lambda>calls. Inr [(''project_viewer'', ''ks-42'')]) \<rparr>"

definition early_clock :: "nat \<Rightarrow> real" where
  "early_clock i = 1000"

definition late_clock :: "nat \<Rightarrow> real" where
  "late_clock i = 2000 + real i"

section \<open>Properties\<close>

subsection \<open>Pruning\<close>

lemma internal_tokens_prune_runs_iff:
  "internal_tokens_prune clock (Some now) st =
     (if now = 0 then internal_tokens_prune clock None st
      else if next_db_prune_time st = 0 \<or> now \<le> next_db_prune_time st
      then st\<lparr> db_tokens := filter (\<lambda>s. \<not> expires s < now) (db_tokens st),
               next_db_prune_time := periodin_db_pruning + now,
               tokens_cache := Map.empty \<rparr>
      else st)"
  by (simp add: internal_tokens_prune_def Let_def)

text \<open>
  Claim C3 says that the prune pass runs only once the prune interval has elapsed since
  the last run, and then deletes the expired rows and clears the cache. The test in the
  code is the other way round (\<^verbatim>\<open>self.next_db_prune_time >= now\<close>): on an object whose
  last prune ran at 1000 (next due at 2800), a call at 1001 prunes the store and clears
  the cache although the interval has not elapsed, and a call at 5000, after the interval
  has elapsed, changes nothing and leaves the expired row in the store.
\<close>

theorem prune_interval_test_reversed:
  "db_tokens (internal_tokens_prune 0 (Some 1001) pruned_state) = [live_session]
   \<and> tokens_cache (internal_tokens_prune 0 (Some 1001) pruned_state) ''live'' = None
   \<and> next_db_prune_time (internal_tokens_prune 0 (Some 1001) pruned_state) = 2801
   \<and> internal_tokens_prune 0 (Some 5000) pruned_state = pruned_state
   \<and> expired_session \<in> set (db_tokens (internal_tokens_prune 0 (Some 5000) pruned_state))"
  by (simp add: internal_tokens_prune_def pruned_state_def initial_state_def
      live_session_def expired_session_def periodin_db_pruning_def)

subsection \<open>Issuing and revoking tokens in delegated mode\<close>

lemma new_token_delegated_call:
  assumes "cfg_backend cfg \<noteq> ''internal''"
  shows "backend_calls (snd (new_token cfg be sha256_hex id_field now tid sess ind rem st))
         = backend_calls st
           @ [Authenticate (in_username ind) (in_username ind)
                (case sess of None \<Rightarrow> None | Some cs \<Rightarrow> cs_token cs) (in_project_id ind)]"
  using assms by (simp add: new_token_def Let_def split: sum.splits)

text \<open>
  Claim C2 says that in delegated mode \<^verbatim>\<open>new_token\<close> passes the caller's password as the
  password argument of \<^verbatim>\<open>authenticate\<close>. The code passes the user name twice: for the
  credentials \<open>alice\<close>/\<open>secret\<close> the call the backend receives has \<open>alice\<close> as user and
  as password.
\<close>

theorem new_token_delegated_password_argument:
  "backend_calls (snd (new_token keystone_config example_backend sha256_hex id_field 1000 tid None
      example_indata example_remote initial_state))
   = [Authenticate (Some ''alice'') (Some ''alice'') None None]
   \<and> in_password example_indata = Some ''secret''"
  by (simp add: new_token_def keystone_config_def example_backend_def example_indata_def
      initial_state_def example_token_info_def Let_def)

text \<open>
  Claim C10: in delegated mode, for a token that is not in the cache, \<^verbatim>\<open>del_token\<close> first
  calls \<^verbatim>\<open>revoke_token\<close> on the backend and only then fails on the cache deletion. The
  call is in the backend's log whatever its outcome, the cache is as before, the state as
  a whole is not, the result is always an error, and when the backend call returns the
  error is NOT\_FOUND.
\<close>

theorem del_token_revokes_before_not_found:
  assumes "cfg_backend cfg \<noteq> ''internal''" and "tokens_cache st token = None"
  shows "backend_calls (snd (del_token cfg be token st)) = backend_calls st @ [RevokeToken token]
    \<and> tokens_cache (snd (del_token cfg be token st)) = tokens_cache st
    \<and> snd (del_token cfg be token st) \<noteq> st
    \<and> (\<exists>e. fst (del_token cfg be token st) = Inl e)
    \<and> (be_revoke_token be (backend_calls st) token = Inr ()
        \<longrightarrow> fst (del_token cfg be token st)
            = Inl (AuthException (''Token '' @ [CHR 0x27] @ token @ [CHR 0x27] @ '' not found'')
                     NOT_FOUND))"
proof -
  let ?st1 = "st\<lparr> backend_calls := backend_calls st @ [RevokeToken token] \<rparr>"
  have neq: "?st1 \<noteq> st"
  proof
    assume "?st1 = st"
    then have "backend_calls ?st1 = backend_calls st" by simp
    then show False by simp
  qed
  have snd_eq: "snd (del_token cfg be token st) = ?st1"
    using assms
    by (simp add: del_token_def Let_def split: sum.splits error.splits option.splits)
  show ?thesis
    using assms neq snd_eq
    by (auto simp add: del_token_def Let_def split: sum.splits error.splits option.splits)
qed

theorem del_token_revokes_before_not_found_witness:
  "cfg_backend keystone_config \<noteq> ''internal'' \<and> tokens_cache initial_state ''t1'' = None
   \<and> backend_calls (snd (del_token keystone_config example_backend ''t1'' initial_state))
       = [RevokeToken ''t1'']
   \<and> fst (del_token keystone_config example_backend ''t1'' initial_state)
       = Inl (AuthException ''Token 't1' not found'' NOT_FOUND)"
proof -
  have h1: "cfg_backend keystone_config \<noteq> ''internal''" by (simp add: keystone_config_def)
  have h2: "tokens_cache initial_state ''t1'' = None" by (simp add: initial_state_def)
  have h3: "be_revoke_token example_backend (backend_calls initial_state) ''t1'' = Inr ()"
    by (simp add: example_backend_def)
  from del_token_revokes_before_not_found [OF h1 h2, of example_backend] h1 h2 h3
  show ?thesis by (simp add: initial_state_def)
qed

subsection \<open>The expiry of issued sessions\<close>

text \<open>
  Claim C8 says that every session created by \<^verbatim>\<open>new_token\<close>, in both modes, has
  \<open>expires > issued_at\<close>. In delegated mode the expiry is the one the backend reports
  and is not compared with the time of issue: a backend that reports the expiry 500 for a
  token issued at 1000 yields a session that breaks the invariant.
\<close>

theorem new_token_delegated_expiry_counterexample:
  "fst (new_token keystone_config stale_backend (\<lambda>x. x) (\<lambda>x. By_id) 1000 ''abc'' None
          example_indata example_remote initial_state) = Inr stale_session
   \<and> \<not> issued_at stale_session < expires stale_session"
  by (simp add: new_token_def keystone_config_def example_backend_def example_indata_def
      example_remote_def initial_state_def example_token_info_def stale_session_def
      stale_backend_def remote_host_of_def Let_def)

text \<open>
  Claim C8 as amended: a session created by \<^verbatim>\<open>new_token\<close> is issued at the time of the
  call. In internal mode it expires 3600 seconds later, so \<open>expires > issued_at\<close>. In
  delegated mode it expires when the backend's token does, and 3600 seconds later when the
  backend reports no expiry; the invariant holds exactly when the reported expiry, if
  any, is later than the time of issue.
\<close>

theorem new_token_expiry:
  assumes "new_token cfg be sha256_hex id_field now tid sess ind rem st = (Inr s, st')"
  shows "issued_at s = now
    \<and> (cfg_backend cfg = ''internal'' \<longrightarrow> expires s = now + 3600 \<and> issued_at s < expires s)
    \<and> (cfg_backend cfg \<noteq> ''internal'' \<longrightarrow>
         (\<exists>ti. be_authenticate be (backend_calls st) (in_username ind) (in_username ind)
                  (case sess of None \<Rightarrow> None | Some cs \<Rightarrow> cs_token cs) (in_project_id ind) = Inr ti
               \<and> expires s = (case ti_expires ti of None \<Rightarrow> now + 3600 | Some e \<Rightarrow> e)
               \<and> (issued_at s < expires s
                    \<longleftrightarrow> (case ti_expires ti of None \<Rightarrow> True | Some e \<Rightarrow> now < e))))"
proof (cases "cfg_backend cfg = ''internal''")
  case True
  with assms have "internal_new_token sha256_hex id_field now tid sess ind rem st = (Inr s, st')"
    by (simp add: new_token_def)
  then have "issued_at s = now \<and> expires s = now + 3600"
    by (auto simp add: internal_new_token_def Let_def split: sum.splits)
  with True show ?thesis by simp
next
  case False
  with assms show ?thesis
    by (auto simp add: new_token_def Let_def split: sum.splits option.splits if_splits)
qed

theorem new_token_expiry_witness:
  "fst (new_token internal_config example_backend (\<lambda>x. x) (\<lambda>x. By_id) 1000 ''abc'' None
      example_indata example_remote internal_state)
     = Inr \<lparr> sid = ''abc'', issued_at = 1000, expires = 4600, project_id = ''admin'',
              username = Some ''alice'', remote_port = 40000, remote_host = Some ''10.0.0.7'',
              admin = True \<rparr>
   \<and> fst (new_token keystone_config example_backend (\<lambda>x. x) (\<lambda>x. By_id) 1000 ''abc'' None
      example_indata example_remote initial_state)
     = Inr (stale_session\<lparr> expires := 4600 \<rparr>)
   \<and> cfg_backend internal_config = ''internal'' \<and> cfg_backend keystone_config \<noteq> ''internal''
   \<and> issued_at (stale_session\<lparr> expires := 4600 \<rparr>) < expires (stale_session\<lparr> expires := 4600 \<rparr>)"
proof -
  let ?s = "\<lparr> sid = ''abc'', issued_at = 1000, expires = 4600, project_id = ''admin'',
              username = Some ''alice'', remote_port = 40000, remote_host = Some ''10.0.0.7'',
              admin = True \<rparr>"
  let ?r1 = "new_token internal_config example_backend (\<lambda>x. x) (\<lambda>x. By_id) 1000 ''abc'' None
      example_indata example_remote internal_state"
  let ?r2 = "new_token keystone_config example_backend (\<lambda>x. x) (\<lambda>x. By_id) 1000 ''abc'' None
      example_indata example_remote initial_state"
  have a: "fst ?r1 = Inr ?s"
    by (simp add: new_token_def internal_new_token_def internal_config_def internal_state_def
        initial_state_def example_indata_def example_remote_def internal_user_content_def
        internal_project_id_def internal_session_admin_def remote_host_of_def Let_def)
  have b: "fst ?r2 = Inr (stale_session\<lparr> expires := 4600 \<rparr>)"
    by (simp add: new_token_def keystone_config_def example_backend_def example_indata_def
        example_remote_def initial_state_def example_token_info_def stale_session_def
        remote_host_of_def Let_def)
  have a': "?r1 = (Inr ?s, snd ?r1)" using a by (metis prod.collapse)
  have b': "?r2 = (Inr (stale_session\<lparr> expires := 4600 \<rparr>), snd ?r2)"
    using b by (metis prod.collapse)
  have c: "cfg_backend internal_config = ''internal''" by (simp add: internal_config_def)
  have d: "cfg_backend keystone_config \<noteq> ''internal''" by (simp add: keystone_config_def)
  have e: "issued_at (stale_session\<lparr> expires := 4600 \<rparr>) < expires (stale_session\<lparr> expires := 4600 \<rparr>)"
    by (simp add: stale_session_def)
  from new_token_expiry [OF a'] new_token_expiry [OF b'] a b c d e
  show ?thesis by blast
qed

subsection \<open>The authorization decision\<close>

text \<open>The definitions that evaluate the string operations on literals.\<close>

lemmas string_eval =
  split_ws_def is_space_def keeps_def is_placeholder_def lower_def lower_char_def

lemma resolve_vnfds_example: "normalize_url (resources_to_operations_mapping catalog_state) ''/vnfds/abc123'' ''GET''
   = Inr (''GET /vnfds/<id>'', [(''id'', ''abc123'')])"
  by (simp add: normalize_url_def catalog_state_def initial_state_def string_eval)

lemma resolve_public_example: "normalize_url (resources_to_operations_mapping catalog_state) ''/public'' ''GET''
   = Inr (''GET /public'', [])"
  by (simp add: normalize_url_def catalog_state_def initial_state_def string_eval)

text \<open>
  Claim C4 says that an operation open to \<open>anonymous\<close> is granted unconditionally,
  without consulting the identity backend. The code asks the backend for the roles of the
  session before it looks for \<open>anonymous\<close>: the call is made for a public operation
  too, and when it fails access is not granted.
\<close>

theorem check_permissions_anonymous_counterexample:
  "map_of (resources_to_operations_mapping catalog_state) ''GET /public'' = Some ''public''
   \<and> map_of (operation_to_allowed_roles catalog_state) ''public'' = Some [VStr ''anonymous'']
   \<and> fst (check_permissions unreachable_backend (live_session\<lparr> sid := ''tok1'' \<rparr>)
            ''/public'' ''GET'' catalog_state)
       = Inl (AuthconnException ''backend unreachable'' BAD_GATEWAY)
   \<and> backend_calls (snd (check_permissions unreachable_backend (live_session\<lparr> sid := ''tok1'' \<rparr>)
            ''/public'' ''GET'' catalog_state)) = [GetUserRoleList ''tok1'']"
  using resolve_public_example
  by (simp add: check_permissions_def catalog_state_def initial_state_def
      unreachable_backend_def example_backend_def Let_def)

text \<open>
  Claim C4 as amended: once the operation is resolved, \<^verbatim>\<open>check_permissions\<close> always asks
  the identity backend for the roles of the session, and an exception of that call is the
  result. When the call returns a role list, access is granted if and only if
  \<open>anonymous\<close> is among the allowed roles of the operation or the list intersects them,
  and denied with \<^verbatim>\<open>AuthException("Access denied: lack of permissions.")\<close> otherwise. When
  it returns \<^verbatim>\<open>None\<close>, access is granted if \<open>anonymous\<close> is allowed and the iteration
  over \<^verbatim>\<open>None\<close> raises \<^verbatim>\<open>TypeError\<close> otherwise.
\<close>

theorem check_permissions_decision:
  assumes "normalize_url (resources_to_operations_mapping st) url method = Inr (key, parameters)"
    and "map_of (resources_to_operations_mapping st) key = Some operation"
    and "map_of (operation_to_allowed_roles st) operation = Some roles_required"
  shows "backend_calls (snd (check_permissions be sess url method st))
           = backend_calls st @ [GetUserRoleList (sid sess)]
    \<and> (\<forall>e. be_get_user_role_list be (backend_calls st) (sid sess) = Inl e
            \<longrightarrow> fst (check_permissions be sess url method st) = Inl e)
    \<and> (\<forall>roles. be_get_user_role_list be (backend_calls st) (sid sess) = Inr (Some roles)
            \<longrightarrow> fst (check_permissions be sess url method st)
                = (if VStr ''anonymous'' \<in> set roles_required
                      \<or> (\<exists>role \<in> set roles. VStr role \<in> set roles_required)
                   then Inr ()
                   else Inl (AuthException ''Access denied: lack of permissions.'' UNAUTHORIZED)))
    \<and> (be_get_user_role_list be (backend_calls st) (sid sess) = Inr None
            \<longrightarrow> fst (check_permissions be sess url method st)
                = (if VStr ''anonymous'' \<in> set roles_required then Inr () else Inl TypeError))"
  using assms
  by (simp add: check_permissions_def Let_def split: sum.splits option.splits)

theorem check_permissions_decision_witness:
  "normalize_url (resources_to_operations_mapping catalog_state) ''/vnfds/abc123'' ''GET''
     = Inr (''GET /vnfds/<id>'', [(''id'', ''abc123'')])
   \<and> map_of (resources_to_operations_mapping catalog_state) ''GET /vnfds/<id>'' = Some ''vnfds:id''
   \<and> map_of (operation_to_allowed_roles catalog_state) ''vnfds:id'' = Some [VStr ''project_viewer'']
   \<and> be_get_user_role_list example_backend (backend_calls catalog_state) ''tok1''
       = Inr (Some [''project_viewer''])
   \<and> fst (check_permissions example_backend (live_session\<lparr> sid := ''tok1'' \<rparr>)
            ''/vnfds/abc123'' ''GET'' catalog_state) = Inr ()
   \<and> backend_calls (snd (check_permissions example_backend (live_session\<lparr> sid := ''tok1'' \<rparr>)
            ''/vnfds/abc123'' ''GET'' catalog_state)) = [GetUserRoleList ''tok1'']"
proof -
  have h2: "map_of (resources_to_operations_mapping catalog_state) ''GET /vnfds/<id>''
              = Some ''vnfds:id''"
    by (simp add: catalog_state_def initial_state_def)
  have h3: "map_of (operation_to_allowed_roles catalog_state) ''vnfds:id''
              = Some [VStr ''project_viewer'']"
    by (simp add: catalog_state_def initial_state_def)
  have h4: "be_get_user_role_list example_backend (backend_calls catalog_state)
              (sid (live_session\<lparr> sid := ''tok1'' \<rparr>)) = Inr (Some [''project_viewer''])"
    by (simp add: example_backend_def)
  have h5: "backend_calls catalog_state = []"
    by (simp add: catalog_state_def initial_state_def)
  from check_permissions_decision [OF resolve_vnfds_example h2 h3, of example_backend "live_session\<lparr> sid := ''tok1'' \<rparr>"]
    resolve_vnfds_example h2 h3 h4 h5
  show ?thesis by simp
qed

subsection \<open>The request gate\<close>

lemma revoke_on_failure_fails:
  "revoke_on_failure cfg be token e st \<noteq> (Inr a, st')"
  by (cases e; cases "del_token cfg be token st"; cases "fst (del_token cfg be token st)")
     (auto simp add: revoke_on_failure_def split: prod.splits sum.splits)

lemma check_permissions_cache:
  "tokens_cache (snd (check_permissions be s url method st)) = tokens_cache st"
  by (simp add: check_permissions_def Let_def split: sum.splits option.splits prod.splits)

lemma delegated_authorize_success:
  assumes "delegated_authorize cfg be req tok st = (Inr a, st')"
  shows "\<exists>token s. tok = Some token \<and> token \<noteq> []
      \<and> be_validate_token be (backend_calls st) token = Inr ()
      \<and> tokens_cache st token = Some s \<and> a = Session s
      \<and> check_permissions be s (req_path_info req) (req_method req)
           (st\<lparr> backend_calls := backend_calls st @ [ValidateToken token] \<rparr>) = (Inr (), st')"
proof -
  from assms have t: "truthy tok"
    by (auto simp add: delegated_authorize_def split: if_splits)
  then obtain token where tok: "tok = Some token" "token \<noteq> []"
    by (cases tok) auto
  let ?st1 = "st\<lparr> backend_calls := backend_calls st @ [ValidateToken token] \<rparr>"
  from assms tok have v: "be_validate_token be (backend_calls st) token = Inr ()"
    by (cases "be_validate_token be (backend_calls st) token")
       (auto simp add: delegated_authorize_def Let_def revoke_on_failure_fails)
  from assms tok v obtain s where c: "tokens_cache st token = Some s"
    by (cases "tokens_cache st token") (auto simp add: delegated_authorize_def Let_def)
  obtain r st2 where cp: "check_permissions be s (req_path_info req) (req_method req) ?st1 = (r, st2)"
    by (cases "check_permissions be s (req_path_info req) (req_method req) ?st1") auto
  have cache2: "tokens_cache st2 = tokens_cache st"
    using check_permissions_cache [of be s "req_path_info req" "req_method req" ?st1] cp by simp
  from assms tok v c cp have r: "r = Inr ()"
    by (cases r) (auto simp add: delegated_authorize_def Let_def revoke_on_failure_fails)
  from assms tok v c cp r cache2 have "a = Session s \<and> st' = st2"
    by (auto simp add: delegated_authorize_def Let_def)
  with tok v c cp r show ?thesis by auto
qed

text \<open>
  Claim C1 says that in either backend mode a successful \<^verbatim>\<open>authorize\<close> resolves the URL
  and checks the permissions before it returns the session. In internal mode
  \<^verbatim>\<open>authorize\<close> returns what \<^verbatim>\<open>_internal_authorize\<close> returns: on an object with a live
  token and an empty resource map the request is granted and the state is unchanged,
  while \<^verbatim>\<open>check_permissions\<close> for the same session, path and method fails.
\<close>

theorem authorize_internal_counterexample:
  "fst (authorize internal_config example_backend 2000 live_request cached_state)
     = Inr (Session live_session)
   \<and> snd (authorize internal_config example_backend 2000 live_request cached_state) = cached_state
   \<and> fst (check_permissions example_backend live_session (req_path_info live_request)
            (req_method live_request) cached_state)
     = Inl (AuthException
              ''Cannot make an authorization decision. URL not found. URL: /vnfds/abc123''
              UNAUTHORIZED)"
  by (simp add: authorize_def request_token_def header_credentials_def internal_authorize_def
      internal_config_def live_request_def cached_state_def initial_state_def live_session_def
      check_permissions_def normalize_url_def split_ws_def is_space_def keeps_def is_placeholder_def lower_def lower_char_def Let_def)

text \<open>
  Claim C1 as amended: in delegated mode a successful \<^verbatim>\<open>authorize\<close> has presented a
  non-empty token to \<^verbatim>\<open>validate_token\<close> of the backend, which returned, and then
  \<^verbatim>\<open>check_permissions\<close> has succeeded for the cached session of that token against the
  path and method of the request; the session returned is that cached session. In
  internal mode a successful \<^verbatim>\<open>authorize\<close> is a successful \<^verbatim>\<open>_internal_authorize\<close> of
  the token, with no resolution and no permission check.
\<close>

theorem authorize_gate:
  assumes "authorize cfg be now req st = (Inr a, st')"
  shows "(cfg_backend cfg \<noteq> ''internal'' \<longrightarrow>
           (\<exists>token s. request_token req st = Inr (Some token) \<and> token \<noteq> []
              \<and> be_validate_token be (backend_calls st) token = Inr ()
              \<and> tokens_cache st token = Some s \<and> a = Session s
              \<and> check_permissions be s (req_path_info req) (req_method req)
                   (st\<lparr> backend_calls := backend_calls st @ [ValidateToken token] \<rparr>)
                 = (Inr (), st')))
    \<and> (cfg_backend cfg = ''internal'' \<longrightarrow>
           (\<exists>token. request_token req st = Inr token
              \<and> internal_authorize cfg now token st = (Inr a, st')))"
proof -
  from assms obtain token where rt: "request_token req st = Inr token"
    by (cases "request_token req st") (auto simp add: authorize_def)
  let ?inner = "if cfg_backend cfg = ''internal'' then internal_authorize cfg now token st
                else delegated_authorize cfg be req token st"
  obtain r st1 where inner: "?inner = (r, st1)" by (cases ?inner) auto
  from assms rt inner have "r = Inr a \<and> st1 = st'"
    by (cases r) (auto simp add: authorize_def split: error.splits if_splits)
  with inner have i: "?inner = (Inr a, st')" by simp
  show ?thesis
  proof (cases "cfg_backend cfg = ''internal''")
    case True
    with i rt show ?thesis by auto
  next
    case False
    with i have "delegated_authorize cfg be req token st = (Inr a, st')" by simp
    from delegated_authorize_success [OF this] rt False show ?thesis by auto
  qed
qed

theorem authorize_gate_witness:
  "fst (authorize keystone_config example_backend 2000 example_request catalog_state)
     = Inr (Session (live_session\<lparr> sid := ''tok1'' \<rparr>))
   \<and> cfg_backend keystone_config \<noteq> ''internal''
   \<and> fst (check_permissions example_backend (live_session\<lparr> sid := ''tok1'' \<rparr>)
            (req_path_info example_request) (req_method example_request)
            (catalog_state\<lparr> backend_calls := backend_calls catalog_state @ [ValidateToken ''tok1''] \<rparr>))
       = Inr ()
   \<and> fst (authorize internal_config example_backend 2000 live_request cached_state)
       = Inr (Session live_session)
   \<and> cfg_backend internal_config = ''internal''
   \<and> fst (internal_authorize internal_config 2000 (Some ''live'') cached_state)
       = Inr (Session live_session)"
proof -
  let ?r1 = "authorize keystone_config example_backend 2000 example_request catalog_state"
  let ?r2 = "authorize internal_config example_backend 2000 live_request cached_state"
  have rt1: "request_token example_request catalog_state = Inr (Some ''tok1'')"
    by (simp add: request_token_def header_credentials_def example_request_def
        catalog_state_def initial_state_def lower_def lower_char_def)
  have rt2: "request_token live_request cached_state = Inr (Some ''live'')"
    by (simp add: request_token_def header_credentials_def live_request_def
        cached_state_def initial_state_def lower_def lower_char_def)
  have cp: "fst (check_permissions example_backend (live_session\<lparr> sid := ''tok1'' \<rparr>)
            ''/vnfds/abc123'' ''GET''
            (catalog_state\<lparr> backend_calls := backend_calls catalog_state @ [ValidateToken ''tok1''] \<rparr>))
       = Inr ()"
    using resolve_vnfds_example
    by (simp add: check_permissions_def catalog_state_def initial_state_def
        example_backend_def Let_def)
  have a: "fst ?r1 = Inr (Session (live_session\<lparr> sid := ''tok1'' \<rparr>))"
    by (simp add: authorize_def request_token_def header_credentials_def lower_def lower_char_def delegated_authorize_def keystone_config_def
        example_backend_def example_request_def catalog_state_def initial_state_def
        check_permissions_def normalize_url_def split_ws_def is_space_def keeps_def
        is_placeholder_def Let_def)
  have b: "fst ?r2 = Inr (Session live_session)"
    by (simp add: authorize_def request_token_def header_credentials_def lower_def lower_char_def live_request_def internal_authorize_def internal_config_def
        cached_state_def initial_state_def live_session_def Let_def)
  have a': "?r1 = (Inr (Session (live_session\<lparr> sid := ''tok1'' \<rparr>)), snd ?r1)"
    using a by (metis prod.collapse)
  have b': "?r2 = (Inr (Session live_session), snd ?r2)"
    using b by (metis prod.collapse)
  have c: "cfg_backend internal_config = ''internal''" by (simp add: internal_config_def)
  have d: "cfg_backend keystone_config \<noteq> ''internal''" by (simp add: keystone_config_def)
  from authorize_gate [OF a'] d rt1
  have g1: "fst (check_permissions example_backend (live_session\<lparr> sid := ''tok1'' \<rparr>)
            (req_path_info example_request) (req_method example_request)
            (catalog_state\<lparr> backend_calls := backend_calls catalog_state @ [ValidateToken ''tok1''] \<rparr>))
       = Inr ()"
    by auto
  from authorize_gate [OF b'] c rt2
  have g2: "fst (internal_authorize internal_config 2000 (Some ''live'') cached_state)
       = Inr (Session live_session)"
    by auto
  from a b c d g1 g2 show ?thesis by blast
qed

subsection \<open>Expired tokens in internal mode\<close>

lemma test_bypass_off:
  "\<not> truthy (cfg_test_user_not_authorized cfg) \<Longrightarrow> test_bypass cfg e = Inl e"
  by (cases "cfg_test_user_not_authorized cfg") (auto simp add: test_bypass_def)

lemma test_bypass_no_session: "test_bypass cfg e \<noteq> Inr (Session s)"
  by (simp add: test_bypass_def split: option.splits)

lemma test_bypass_on:
  "truthy (cfg_test_user_not_authorized cfg) \<Longrightarrow>
   \<exists>project user. test_bypass cfg e = Inr (FakeSession ''fake-token-id-for-test'' project user True)"
  by (cases "cfg_test_user_not_authorized cfg") (auto simp add: test_bypass_def)

text \<open>
  Claim C7 says that internal validation of a token whose cached or stored session has
  expired always fails with Unauthorized. When the test key
  \<^verbatim>\<open>test.user_not_authorized\<close> is configured, the failure is replaced by the fixed fake
  session: validation of an expired token succeeds.
\<close>

theorem internal_authorize_bypass_counterexample:
  "tokens_cache pruned_state ''old'' = Some expired_session
   \<and> db_get_one (\<lambda>s. sid s = ''old'') (db_tokens pruned_state) = Inr expired_session
   \<and> expires expired_session < 1000
   \<and> fst (internal_authorize bypass_config 1000 (Some ''old'') pruned_state)
       = Inr (FakeSession ''fake-token-id-for-test'' ''admin'' ''tester'' True)"
  by (simp add: internal_authorize_def test_bypass_def bypass_config_def pruned_state_def
      initial_state_def expired_session_def live_session_def db_get_one_def Let_def)

text \<open>
  Claim C7 as amended, for a non-empty token id and every time \<open>now\<close>. A session of
  the cache or the store that validation returns has not expired; after the call the cache
  holds no expired session under the token id, the other cache entries and the store are
  as before (eviction is a removal that cannot fail). When the cache has no session or an
  expired one under the id, that entry is evicted and the store is read: an expired row is
  not put into the cache, and the call fails with Unauthorized ("Expired Token ...") unless
  the test bypass is configured, in which case it returns the fake session; a missing row
  fails with Unauthorized ("Invalid Token ...") in either case.
\<close>

theorem internal_authorize_expiry:
  assumes "token \<noteq> []"
  shows "(\<forall>s. fst (internal_authorize cfg now (Some token) st) = Inr (Session s)
            \<longrightarrow> \<not> expires s < now)
    \<and> (\<forall>s. tokens_cache (snd (internal_authorize cfg now (Some token) st)) token = Some s
            \<longrightarrow> \<not> expires s < now)
    \<and> (\<forall>t. t \<noteq> token
            \<longrightarrow> tokens_cache (snd (internal_authorize cfg now (Some token) st)) t = tokens_cache st t)
    \<and> db_tokens (snd (internal_authorize cfg now (Some token) st)) = db_tokens st
    \<and> ((\<forall>c. tokens_cache st token = Some c \<longrightarrow> expires c < now)
         \<and> db_get_one (\<lambda>s. sid s = token) (db_tokens st) = Inr row \<and> expires row < now
        \<longrightarrow> tokens_cache (snd (internal_authorize cfg now (Some token) st)) token = None
          \<and> (\<not> truthy (cfg_test_user_not_authorized cfg)
                \<longrightarrow> fst (internal_authorize cfg now (Some token) st)
                    = Inl (AuthException ''Expired Token or Authorization http header''
                             UNAUTHORIZED))
          \<and> (truthy (cfg_test_user_not_authorized cfg)
                \<longrightarrow> (\<exists>project user. fst (internal_authorize cfg now (Some token) st)
                      = Inr (FakeSession ''fake-token-id-for-test'' project user True))))
    \<and> ((\<forall>c. tokens_cache st token = Some c \<longrightarrow> expires c < now)
         \<and> db_get_one (\<lambda>s. sid s = token) (db_tokens st) = Inl (DbException m NOT_FOUND)
        \<longrightarrow> tokens_cache (snd (internal_authorize cfg now (Some token) st)) token = None
          \<and> fst (internal_authorize cfg now (Some token) st)
              = Inl (AuthException ''Invalid Token or Authorization http header'' UNAUTHORIZED))"
proof -
  let ?r = "internal_authorize cfg now (Some token) st"
  have c1: "\<forall>s. fst ?r = Inr (Session s) \<longrightarrow> \<not> expires s < now"
    using assms
    by (auto simp add: internal_authorize_def Let_def test_bypass_no_session
        split: option.splits sum.splits error.splits if_splits)
  have c2: "\<forall>s. tokens_cache (snd ?r) token = Some s \<longrightarrow> \<not> expires s < now"
    using assms
    by (auto simp add: internal_authorize_def Let_def
        split: option.splits sum.splits error.splits if_splits)
  have c3: "\<forall>t. t \<noteq> token \<longrightarrow> tokens_cache (snd ?r) t = tokens_cache st t"
    using assms
    by (auto simp add: internal_authorize_def Let_def
        split: option.splits sum.splits error.splits if_splits)
  have c4: "db_tokens (snd ?r) = db_tokens st"
    using assms
    by (auto simp add: internal_authorize_def Let_def
        split: option.splits sum.splits error.splits if_splits)
  have c5: "(\<forall>c. tokens_cache st token = Some c \<longrightarrow> expires c < now)
         \<and> db_get_one (\<lambda>s. sid s = token) (db_tokens st) = Inr row \<and> expires row < now
        \<longrightarrow> tokens_cache (snd ?r) token = None
          \<and> (\<not> truthy (cfg_test_user_not_authorized cfg)
                \<longrightarrow> fst ?r = Inl (AuthException ''Expired Token or Authorization http header''
                             UNAUTHORIZED))
          \<and> (truthy (cfg_test_user_not_authorized cfg)
                \<longrightarrow> (\<exists>project user. fst ?r
                      = Inr (FakeSession ''fake-token-id-for-test'' project user True)))"
    using assms test_bypass_on [of cfg "AuthException ''Expired Token or Authorization http header'' UNAUTHORIZED"]
    by (cases "tokens_cache st token")
       (auto simp add: internal_authorize_def Let_def test_bypass_off)
  have c6: "(\<forall>c. tokens_cache st token = Some c \<longrightarrow> expires c < now)
         \<and> db_get_one (\<lambda>s. sid s = token) (db_tokens st) = Inl (DbException m NOT_FOUND)
        \<longrightarrow> tokens_cache (snd ?r) token = None
          \<and> fst ?r = Inl (AuthException ''Invalid Token or Authorization http header'' UNAUTHORIZED)"
    using assms
    by (cases "tokens_cache st token") (auto simp add: internal_authorize_def Let_def)
  from c1 c2 c3 c4 c5 c6 show ?thesis by blast
qed

theorem internal_authorize_expiry_witness:
  "''old'' \<noteq> []
   \<and> tokens_cache pruned_state ''old'' = Some expired_session
   \<and> db_get_one (\<lambda>s. sid s = ''old'') (db_tokens pruned_state) = Inr expired_session
   \<and> expires expired_session < 1000
   \<and> \<not> truthy (cfg_test_user_not_authorized internal_config)
   \<and> fst (internal_authorize internal_config 1000 (Some ''old'') pruned_state)
       = Inl (AuthException ''Expired Token or Authorization http header'' UNAUTHORIZED)
   \<and> tokens_cache (snd (internal_authorize internal_config 1000 (Some ''old'') pruned_state)) ''old''
       = None
   \<and> tokens_cache (snd (internal_authorize internal_config 1000 (Some ''old'') pruned_state)) ''live''
       = Some live_session
   \<and> fst (internal_authorize internal_config 1000 (Some ''live'') pruned_state)
       = Inr (Session live_session)
   \<and> \<not> expires live_session < 1000"
proof -
  have h0: "''old'' \<noteq> []" by simp
  have h0': "''live'' \<noteq> []" by simp
  have h1: "tokens_cache pruned_state ''old'' = Some expired_session"
    by (simp add: pruned_state_def initial_state_def)
  have h2: "db_get_one (\<lambda>s. sid s = ''old'') (db_tokens pruned_state) = Inr expired_session"
    by (simp add: pruned_state_def initial_state_def db_get_one_def expired_session_def
        live_session_def)
  have h3: "expires expired_session < 1000" by (simp add: expired_session_def)
  have h4: "\<not> truthy (cfg_test_user_not_authorized internal_config)"
    by (simp add: internal_config_def)
  have h5: "tokens_cache pruned_state ''live'' = Some live_session"
    by (simp add: pruned_state_def initial_state_def)
  have h6: "fst (internal_authorize internal_config 1000 (Some ''live'') pruned_state)
       = Inr (Session live_session)"
    by (simp add: internal_authorize_def pruned_state_def initial_state_def live_session_def
        Let_def)
  have h7: "(\<forall>c. tokens_cache pruned_state ''old'' = Some c \<longrightarrow> expires c < 1000)"
    using h1 h3 by simp
  note t1 = internal_authorize_expiry [OF h0, of internal_config 1000 pruned_state expired_session]
  note t2 = internal_authorize_expiry [OF h0', of internal_config 1000 pruned_state]
  from t1 h2 h3 h4 h7
  have g1: "fst (internal_authorize internal_config 1000 (Some ''old'') pruned_state)
       = Inl (AuthException ''Expired Token or Authorization http header'' UNAUTHORIZED)"
    and g2: "tokens_cache (snd (internal_authorize internal_config 1000 (Some ''old'') pruned_state)) ''old''
       = None"
    by blast+
  from t1 h5
  have g3: "tokens_cache (snd (internal_authorize internal_config 1000 (Some ''old'') pruned_state)) ''live''
       = Some live_session"
    by simp
  from t2 h6 have g4: "\<not> expires live_session < 1000" by blast
  from h0 h1 h2 h3 h4 h6 g1 g2 g3 g4 show ?thesis by blast
qed

subsection \<open>URL resolution\<close>

text \<open>
  Claim C6 says that resolution returns the entry of the resource map when exactly one
  entry matches the request under the segment scan (a literal segment must equal the
  request's, the greedy placeholder always survives and ends the scan) and fails when
  none or several match. The scan stops as soon as a single candidate is left whose
  template ends in \<^verbatim>\<open><artifactPath>\<close>, whatever the index reached: with the artifact
  template as the only GET entry, the request \<^verbatim>\<open>/nsds/abc/x/y/z\<close> resolves to it although
  its literal segment \<^verbatim>\<open>vnfds\<close> differs from the request's \<^verbatim>\<open>nsds\<close>. And a template
  that ends in the greedy placeholder is dropped at the next index when another candidate
  is still in the race: with the templates \<^verbatim>\<open>/a/<artifactPath>\<close> and \<^verbatim>\<open>/a/<x>/c\<close>, the
  request \<^verbatim>\<open>/a/b/d\<close>, which only the first matches, is not resolved.
\<close>

theorem normalize_url_ignores_literal_mismatch:
  "normalize_url artifact_map ''/nsds/abc/x/y/z'' ''GET''
     = Inr (''GET /vnfds/<id>/artifacts/<artifactPath>'',
            [(''id'', ''abc''), (''artifactPath'', ''y/z'')])
   \<and> split_on CHR ''/'' ''/vnfds/<id>/artifacts/<artifactPath>'' ! 1 = ''vnfds''
   \<and> \<not> is_placeholder ''vnfds''
   \<and> split_on CHR ''/'' ''/nsds/abc/x/y/z'' ! 1 = ''nsds''
   \<and> normalize_url greedy_map ''/a/b/d'' ''GET''
     = Inl (AuthException ''Cannot make an authorization decision. URL not found. URL: /a/b/d''
              UNAUTHORIZED)"
  by (simp add: normalize_url_def artifact_map_def greedy_map_def string_eval)

subsection \<open>The effective permission of a role\<close>

text \<open>
  The value of an operation in the table of a record is that of the last override, in
  the sorted list, whose key is a prefix of the operation, and the default when there
  is none.
\<close>

lemma map_of_fold_update:
  "map_of (fold (\<lambda>m table. AList.update m v table) ms tbl) k
     = (if k \<in> set ms then Some v else map_of tbl k)"
  by (induction ms arbitrary: tbl) (auto simp add: update_conv')

lemma keys_fold_update:
  "set ms \<subseteq> set (map fst tbl) \<Longrightarrow>
   map fst (fold (\<lambda>m table. AList.update m v table) ms tbl) = map fst tbl"
proof (induction ms arbitrary: tbl)
  case Nil
  then show ?case by simp
next
  case (Cons a ms)
  have keys: "map fst (AList.update a v tbl) = map fst tbl"
    using Cons.prems by (simp add: update_keys)
  have "set ms \<subseteq> set (map fst (AList.update a v tbl))"
    using Cons.prems keys by simp
  from Cons.IH [OF this] keys show ?case by simp
qed

lemma keys_apply_override: "map fst (apply_override oper tbl) = map fst tbl"
  unfolding apply_override_def by (rule keys_fold_update) auto

lemma map_of_apply_override:
  "map_of (apply_override oper tbl) k
     = (if prefix (fst oper) k \<and> k \<in> set (map fst tbl) then Some (snd oper) else map_of tbl k)"
  unfolding apply_override_def by (simp add: map_of_fold_update)

lemma keys_fold_apply_override: "map fst (fold apply_override ovs tbl) = map fst tbl"
  by (induction ovs arbitrary: tbl) (simp_all add: keys_apply_override)

lemma map_of_fold_apply_override:
  assumes "k \<in> set (map fst tbl)"
  shows "map_of (fold apply_override ovs tbl) k
     = (case filter (\<lambda>x. prefix (fst x) k) ovs of
          [] \<Rightarrow> map_of tbl k
        | ms \<Rightarrow> Some (snd (last ms)))"
  using assms
proof (induction ovs arbitrary: tbl)
  case Nil
  then show ?case by simp
next
  case (Cons x ovs)
  have k: "k \<in> set (map fst (apply_override x tbl))"
    using Cons.prems by (simp add: keys_apply_override)
  show ?case
    using Cons.IH [OF k] Cons.prems
    by (simp add: map_of_apply_override split: list.splits)
qed

lemma sorted_last_greatest:
  "sorted (map f xs) \<Longrightarrow> x \<in> set xs \<Longrightarrow> f x \<le> f (last xs)"
  by (induction xs) auto

lemma last_of_sorted_matches:
  assumes "x \<in> set xs" and "P x"
    and "\<forall>y \<in> set xs. P y \<and> y \<noteq> x \<longrightarrow> f y < (f x :: nat)"
  shows "last (filter P (sort_key f xs)) = x"
proof -
  let ?L = "filter P (sort_key f xs)"
  have mem: "x \<in> set ?L" using assms by simp
  then have ne: "?L \<noteq> []" by (metis empty_iff list.set(1))
  have srt: "sorted (map f ?L)" by (simp add: sorted_filter)
  have le: "f x \<le> f (last ?L)" using sorted_last_greatest [OF srt mem] .
  have "last ?L \<in> set ?L" using ne by (rule last_in_set)
  then have "last ?L \<in> set xs" "P (last ?L)" by auto
  with assms(3) le show ?thesis by force
qed

lemma map_of_constant_table:
  "k \<in> set ks \<Longrightarrow> map_of (map (\<lambda>oper. (oper, v)) ks) k = Some v"
  by (induction ks) auto

lemma record_permissions_value:
  assumes "op \<in> set operations" and "distinct (map fst record)"
    and "map_of record ''root'' = Some root_val"
  shows "\<exists>table. record_permissions operations record = Inr table
    \<and> ((\<forall>x \<in> set record. fst x \<notin> set ignore_fields \<longrightarrow> \<not> prefix (fst x) op)
          \<longrightarrow> map_of table op = Some root_val)
    \<and> (\<forall>p v. (p, v) \<in> set record \<and> p \<notin> set ignore_fields \<and> prefix p op
              \<and> (\<forall>x \<in> set record. fst x \<notin> set ignore_fields \<and> prefix (fst x) op \<and> fst x \<noteq> p
                    \<longrightarrow> count_list (fst x) CHR '':'' < count_list p CHR '':'')
            \<longrightarrow> map_of table op = Some v)"
proof -
  let ?ovs = "filter (\<lambda>x. fst x \<notin> set ignore_fields) record"
  let ?tbl0 = "map (\<lambda>oper. (oper, root_val)) operations"
  let ?table = "fold apply_override (sort_key colons ?ovs) ?tbl0"
  let ?match = "\<lambda>x. prefix (fst x) op"
  have ne: "operations \<noteq> []" using assms(1) by auto
  have rp: "record_permissions operations record = Inr ?table"
    using ne assms(3) by (simp add: record_permissions_def operations_joined_def)
  have key: "op \<in> set (map fst ?tbl0)" using assms(1) by (simp add: comp_def)
  have val: "map_of ?table op
      = (case filter ?match (sort_key colons ?ovs) of
           [] \<Rightarrow> map_of ?tbl0 op
         | ms \<Rightarrow> Some (snd (last ms)))"
    by (rule map_of_fold_apply_override [OF key])
  have a: "(\<forall>x \<in> set record. fst x \<notin> set ignore_fields \<longrightarrow> \<not> prefix (fst x) op)
          \<longrightarrow> map_of ?table op = Some root_val"
  proof
    assume h: "\<forall>x \<in> set record. fst x \<notin> set ignore_fields \<longrightarrow> \<not> prefix (fst x) op"
    then have "filter ?match (sort_key colons ?ovs) = []"
      by (auto simp add: filter_empty_conv)
    with val show "map_of ?table op = Some root_val"
      using assms(1) by (simp add: map_of_constant_table)
  qed
  have b: "\<forall>p v. (p, v) \<in> set record \<and> p \<notin> set ignore_fields \<and> prefix p op
              \<and> (\<forall>x \<in> set record. fst x \<notin> set ignore_fields \<and> prefix (fst x) op \<and> fst x \<noteq> p
                    \<longrightarrow> count_list (fst x) CHR '':'' < count_list p CHR '':'')
            \<longrightarrow> map_of ?table op = Some v"
  proof (intro allI impI)
    fix p v
    assume h: "(p, v) \<in> set record \<and> p \<notin> set ignore_fields \<and> prefix p op
              \<and> (\<forall>x \<in> set record. fst x \<notin> set ignore_fields \<and> prefix (fst x) op \<and> fst x \<noteq> p
                    \<longrightarrow> count_list (fst x) CHR '':'' < count_list p CHR '':'')"
    have m1: "(p, v) \<in> set ?ovs" using h by simp
    have m2: "?match (p, v)" using h by simp
    have m3: "\<forall>y \<in> set ?ovs. ?match y \<and> y \<noteq> (p, v) \<longrightarrow> colons y < colons (p, v)"
    proof (intro ballI impI)
      fix y assume y: "y \<in> set ?ovs" and y2: "?match y \<and> y \<noteq> (p, v)"
      have "fst y \<noteq> p"
      proof
        assume "fst y = p"
        then have "(p, snd y) \<in> set record" using y by (cases y) auto
        with h assms(2) have "snd y = v" by (meson eq_key_imp_eq_value)
        with \<open>fst y = p\<close> y2 show False by (cases y) auto
      qed
      with h y y2 show "colons y < colons (p, v)" by (auto simp add: colons_def)
    qed
    have l: "last (filter ?match (sort_key colons ?ovs)) = (p, v)"
      by (rule last_of_sorted_matches [OF m1 m2 m3])
    have "(p, v) \<in> set (filter ?match (sort_key colons ?ovs))" using m1 m2 by simp
    then have "filter ?match (sort_key colons ?ovs) \<noteq> []" by (metis empty_iff list.set(1))
    then obtain y ys where ys: "filter ?match (sort_key colons ?ovs) = y # ys"
      by (meson neq_Nil_conv)
    have "map_of ?table op = Some (snd (last (filter ?match (sort_key colons ?ovs))))"
      unfolding val ys by simp
    then show "map_of ?table op = Some v" unfolding l by simp
  qed
  from rp a b show ?thesis by blast
qed

text \<open>
  Claim C5 says that the effective permission of a role for an operation is that of its
  most specific matching prefix and does not depend on the order in which the overrides
  are declared. Prefixes are compared as plain strings and sorted by their number of
  colons only, and the sort is stable: of two matching prefixes with the same number of
  colons, such as \<open>vnf\<close> and \<open>vnfds\<close>, the one declared last wins. The same two
  overrides, declared in the two orders, give different tables, and in the first order
  the shorter prefix \<open>vnf\<close> wins over \<open>vnfds\<close>.
\<close>

theorem effective_permission_order_counterexample:
  "set sibling_record_reordered = set sibling_record
   \<and> record_permissions catalog_operations sibling_record
       = Inr [(''vnfds'', VBool False), (''vnfds:id'', VBool False),
              (''vnfds:id:delete'', VBool False)]
   \<and> record_permissions catalog_operations sibling_record_reordered
       = Inr [(''vnfds'', VBool True), (''vnfds:id'', VBool True),
              (''vnfds:id:delete'', VBool True)]"
  by (auto simp add: record_permissions_def operations_joined_def apply_override_def
      catalog_operations_def sibling_record_def sibling_record_reordered_def
      ignore_fields_def colons_def)

text \<open>
  Claim C5 as amended: for every role record and every operation of the catalog, the
  effective permission is the \<^verbatim>\<open>root\<close> default of the record when no declared prefix is
  a string prefix of the operation; and it is the value of a matching declared prefix
  whenever every other matching prefix has fewer colons (the deepest prefix wins). In both
  cases the value is the same for every declaration order of the same overrides.
\<close>

theorem effective_permission_most_specific:
  assumes "op \<in> set operations"
    and "distinct (map fst record)" and "distinct (map fst record')"
    and "set record' = set record"
    and "map_of record ''root'' = Some root_val"
  shows "\<exists>table table'. record_permissions operations record = Inr table
    \<and> record_permissions operations record' = Inr table'
    \<and> ((\<forall>x \<in> set record. fst x \<notin> set ignore_fields \<longrightarrow> \<not> prefix (fst x) op)
          \<longrightarrow> map_of table op = Some root_val \<and> map_of table' op = Some root_val)
    \<and> (\<forall>p v. (p, v) \<in> set record \<and> p \<notin> set ignore_fields \<and> prefix p op
              \<and> (\<forall>x \<in> set record. fst x \<notin> set ignore_fields \<and> prefix (fst x) op \<and> fst x \<noteq> p
                    \<longrightarrow> count_list (fst x) CHR '':'' < count_list p CHR '':'')
            \<longrightarrow> map_of table op = Some v \<and> map_of table' op = Some v)"
proof -
  have "map_of record' = map_of record"
    using assms(2,3,4) by (simp add: map_of_inject_set)
  then have root': "map_of record' ''root'' = Some root_val" using assms(5) by simp
  from record_permissions_value [OF assms(1) assms(2) assms(5)]
  obtain table where t: "record_permissions operations record = Inr table"
    "(\<forall>x \<in> set record. fst x \<notin> set ignore_fields \<longrightarrow> \<not> prefix (fst x) op)
          \<longrightarrow> map_of table op = Some root_val"
    "\<forall>p v. (p, v) \<in> set record \<and> p \<notin> set ignore_fields \<and> prefix p op
              \<and> (\<forall>x \<in> set record. fst x \<notin> set ignore_fields \<and> prefix (fst x) op \<and> fst x \<noteq> p
                    \<longrightarrow> count_list (fst x) CHR '':'' < count_list p CHR '':'')
            \<longrightarrow> map_of table op = Some v"
    by blast
  from record_permissions_value [OF assms(1) assms(3) root']
  obtain table' where t': "record_permissions operations record' = Inr table'"
    "(\<forall>x \<in> set record'. fst x \<notin> set ignore_fields \<longrightarrow> \<not> prefix (fst x) op)
          \<longrightarrow> map_of table' op = Some root_val"
    "\<forall>p v. (p, v) \<in> set record' \<and> p \<notin> set ignore_fields \<and> prefix p op
              \<and> (\<forall>x \<in> set record'. fst x \<notin> set ignore_fields \<and> prefix (fst x) op \<and> fst x \<noteq> p
                    \<longrightarrow> count_list (fst x) CHR '':'' < count_list p CHR '':'')
            \<longrightarrow> map_of table' op = Some v"
    by blast
  from t t' assms(4) show ?thesis
    by (intro exI [of _ table] exI [of _ table']) simp
qed

theorem effective_permission_most_specific_witness:
  "''vnfds:id:delete'' \<in> set catalog_operations
   \<and> distinct (map fst viewer_record) \<and> distinct (map fst viewer_record_reordered)
   \<and> set viewer_record_reordered = set viewer_record
   \<and> map_of viewer_record ''root'' = Some (VBool False)
   \<and> (''vnfds:id:delete'', VBool False) \<in> set viewer_record
   \<and> (''vnfds'', VBool True) \<in> set viewer_record
   \<and> prefix ''vnfds'' ''vnfds:id:delete''
   \<and> (\<exists>table table'. record_permissions catalog_operations viewer_record = Inr table
         \<and> record_permissions catalog_operations viewer_record_reordered = Inr table'
         \<and> map_of table ''vnfds:id:delete'' = Some (VBool False)
         \<and> map_of table' ''vnfds:id:delete'' = Some (VBool False))"
proof -
  have h1: "''vnfds:id:delete'' \<in> set catalog_operations" by (simp add: catalog_operations_def)
  have h2: "distinct (map fst viewer_record)" by (simp add: viewer_record_def)
  have h3: "distinct (map fst viewer_record_reordered)" by (simp add: viewer_record_reordered_def)
  have h4: "set viewer_record_reordered = set viewer_record"
    by (auto simp add: viewer_record_def viewer_record_reordered_def)
  have h5: "map_of viewer_record ''root'' = Some (VBool False)" by (simp add: viewer_record_def)
  have h6: "(''vnfds:id:delete'', VBool False) \<in> set viewer_record
        \<and> ''vnfds:id:delete'' \<notin> set ignore_fields \<and> prefix ''vnfds:id:delete'' ''vnfds:id:delete''
        \<and> (\<forall>x \<in> set viewer_record. fst x \<notin> set ignore_fields \<and> prefix (fst x) ''vnfds:id:delete''
               \<and> fst x \<noteq> ''vnfds:id:delete''
             \<longrightarrow> count_list (fst x) CHR '':'' < count_list ''vnfds:id:delete'' CHR '':'')"
    by (simp add: viewer_record_def ignore_fields_def)
  have h7: "(''vnfds'', VBool True) \<in> set viewer_record \<and> prefix ''vnfds'' ''vnfds:id:delete''"
    by (simp add: viewer_record_def)
  from effective_permission_most_specific [OF h1 h2 h3 h4 h5] h6
  have "\<exists>table table'. record_permissions catalog_operations viewer_record = Inr table
         \<and> record_permissions catalog_operations viewer_record_reordered = Inr table'
         \<and> map_of table ''vnfds:id:delete'' = Some (VBool False)
         \<and> map_of table' ''vnfds:id:delete'' = Some (VBool False)"
    by blast
  with h1 h2 h3 h4 h5 h6 h7 show ?thesis by blast
qed

subsection \<open>Determinism of the catalog build\<close>

text \<open>
  The index is a function of the records through their essential items only, and two
  loads of the same role map write records with the same essential items, whatever the
  clock and the identifiers the backend hands out.
\<close>

lemma essential_update:
  "essential (AList.update k v r)
     = (if k = ''_id'' \<or> k = ''_admin'' then essential r else AList.update k v (essential r))"
  by (induction r) (auto simp add: essential_def)

lemma essential_fold_update:
  "essential item = essential item' \<Longrightarrow>
   essential (fold (\<lambda>(operation, v) item. AList.update operation (VBool v) item) ops item)
     = essential (fold (\<lambda>(operation, v) item. AList.update operation (VBool v) item) ops item')"
proof (induction ops arbitrary: item item')
  case Nil
  then show ?case by simp
next
  case (Cons x ops)
  obtain k v where x: "x = (k, v)" by (cases x)
  have "essential (AList.update k (VBool v) item) = essential (AList.update k (VBool v) item')"
    using Cons.prems by (simp add: essential_update)
  from Cons.IH [OF this] x show ?case by simp
qed

lemma essential_item:
  "essential (operation_to_roles_item now role root_val ops)
     = essential (operation_to_roles_item now' role root_val ops)"
  unfolding operation_to_roles_item_def
  by (rule essential_fold_update) (simp add: essential_def)

lemma map_of_essential:
  "k \<noteq> ''_id'' \<Longrightarrow> k \<noteq> ''_admin'' \<Longrightarrow> map_of (essential r) k = map_of r k"
  by (induction r) (auto simp add: essential_def)

lemma operations_joined_essential: "operations_joined (essential r) = operations_joined r"
proof -
  have "filter (\<lambda>x. fst x \<notin> set ignore_fields) (essential r)
          = filter (\<lambda>x. fst x \<notin> set ignore_fields) r"
    unfolding essential_def filter_filter
    by (rule filter_cong) (auto simp add: ignore_fields_def)
  then show ?thesis by (simp add: operations_joined_def)
qed

lemma record_permissions_essential:
  "record_permissions operations (essential r) = record_permissions operations r"
  by (simp add: record_permissions_def operations_joined_essential map_of_essential
      split: option.splits)

lemma build_permissions_essential:
  "build_permissions operations (map essential records) permissions
     = build_permissions operations records permissions"
  by (induction records arbitrary: permissions)
     (simp_all add: record_permissions_essential map_of_essential Let_def
        split: sum.splits option.splits)

lemma build_permissions_cong:
  assumes "map essential records = map essential records'"
  shows "build_permissions operations records permissions
           = build_permissions operations records' permissions"
  using assms build_permissions_essential [of operations records permissions]
    build_permissions_essential [of operations records' permissions]
  by simp

lemma keystone_id_frame:
  assumes "keystone_id be role st = (r, st')"
  shows "db_roles_operations st' = db_roles_operations st
    \<and> resources_to_operations_mapping st' = resources_to_operations_mapping st
    \<and> operation_to_allowed_roles st' = operation_to_allowed_roles st"
  using assms
  by (auto simp add: keystone_id_def Let_def split: sum.splits list.splits)

lemma load_roles_frame:
  "load_roles cfg be clock i docs roles st = (r, st') \<Longrightarrow>
   resources_to_operations_mapping st' = resources_to_operations_mapping st
   \<and> operation_to_allowed_roles st' = operation_to_allowed_roles st"
proof (induction docs arbitrary: i roles st)
  case Nil
  then show ?case by simp
next
  case (Cons d docs)
  show ?case
  proof (cases "rd_role d \<in> set roles")
    case True
    with Cons.prems have "load_roles cfg be clock (Suc i) docs roles st = (r, st')" by simp
    from Cons.IH [OF this] show ?thesis .
  next
    case notin: False
    show ?thesis
    proof (cases "rd_operations d = []")
      case True
      with notin Cons.prems
      have "load_roles cfg be clock (Suc i) docs (roles @ [rd_role d]) st = (r, st')" by simp
      from Cons.IH [OF this] show ?thesis .
    next
      case ops: False
      show ?thesis
      proof (cases "read_operations (rd_operations d) [] None")
        case (Inl e)
        with notin ops Cons.prems show ?thesis by simp
      next
        case (Inr pr)
        obtain role_ops rootv where pr: "pr = (role_ops, rootv)" by (cases pr)
        let ?item = "operation_to_roles_item (clock i) (rd_role d) (rootv = Some True) role_ops"
        show ?thesis
        proof (cases "cfg_backend cfg \<noteq> ''internal'' \<and> rd_role d \<noteq> ''anonymous''")
          case ks: True
          obtain r1 s1 where k: "keystone_id be (rd_role d) st = (r1, s1)"
            by (cases "keystone_id be (rd_role d) st")
          note fr = keystone_id_frame [OF k]
          show ?thesis
          proof (cases r1)
            case (Inl e)
            with notin ops Inr pr ks k Cons.prems have "st' = s1" by (simp add: Let_def)
            with fr show ?thesis by simp
          next
            case ident: (Inr ident)
            with notin ops Inr pr ks k Cons.prems
            have "load_roles cfg be clock (Suc i) docs (roles @ [rd_role d])
                    (s1\<lparr> db_roles_operations := db_roles_operations s1
                           @ [AList.update ''_id'' (VStr ident) ?item] \<rparr>) = (r, st')"
              by (simp add: Let_def)
            from Cons.IH [OF this] fr show ?thesis by simp
          qed
        next
          case False
          with notin ops Inr pr Cons.prems
          have "load_roles cfg be clock (Suc i) docs (roles @ [rd_role d])
                  (st\<lparr> db_roles_operations := db_roles_operations st @ [?item] \<rparr>) = (r, st')"
            by (auto simp add: Let_def)
          from Cons.IH [OF this] show ?thesis by simp
        qed
      qed
    qed
  qed
qed

lemma load_roles_essential:
  assumes "load_roles cfg be1 clock1 i1 docs roles st1 = (Inr u1, st1')"
    and "load_roles cfg be2 clock2 i2 docs roles st2 = (Inr u2, st2')"
    and "map essential (db_roles_operations st1) = map essential (db_roles_operations st2)"
  shows "map essential (db_roles_operations st1') = map essential (db_roles_operations st2')"
  using assms
proof (induction docs arbitrary: i1 i2 roles st1 st2)
  case Nil
  then show ?case by simp
next
  case (Cons d docs)
  show ?case
  proof (cases "rd_role d \<in> set roles")
    case True
    with Cons.prems
    have "load_roles cfg be1 clock1 (Suc i1) docs roles st1 = (Inr u1, st1')"
      and "load_roles cfg be2 clock2 (Suc i2) docs roles st2 = (Inr u2, st2')" by simp_all
    from Cons.IH [OF this Cons.prems(3)] show ?thesis .
  next
    case notin: False
    show ?thesis
    proof (cases "rd_operations d = []")
      case True
      with notin Cons.prems
      have "load_roles cfg be1 clock1 (Suc i1) docs (roles @ [rd_role d]) st1 = (Inr u1, st1')"
        and "load_roles cfg be2 clock2 (Suc i2) docs (roles @ [rd_role d]) st2 = (Inr u2, st2')"
        by simp_all
      from Cons.IH [OF this Cons.prems(3)] show ?thesis .
    next
      case ops: False
      show ?thesis
      proof (cases "read_operations (rd_operations d) [] None")
        case (Inl e)
        with notin ops Cons.prems(1) show ?thesis by simp
      next
        case (Inr pr)
        obtain role_ops rootv where pr: "pr = (role_ops, rootv)" by (cases pr)
        let ?item1 = "operation_to_roles_item (clock1 i1) (rd_role d) (rootv = Some True) role_ops"
        let ?item2 = "operation_to_roles_item (clock2 i2) (rd_role d) (rootv = Some True) role_ops"
        have items: "essential ?item1 = essential ?item2" by (rule essential_item)
        show ?thesis
        proof (cases "cfg_backend cfg \<noteq> ''internal'' \<and> rd_role d \<noteq> ''anonymous''")
          case ks: True
          obtain r1 s1 where k1: "keystone_id be1 (rd_role d) st1 = (r1, s1)"
            by (cases "keystone_id be1 (rd_role d) st1")
          obtain r2 s2 where k2: "keystone_id be2 (rd_role d) st2 = (r2, s2)"
            by (cases "keystone_id be2 (rd_role d) st2")
          note fr1 = keystone_id_frame [OF k1] and fr2 = keystone_id_frame [OF k2]
          from notin ops Inr pr ks k1 Cons.prems(1) obtain ident1 where id1: "r1 = Inr ident1"
            by (cases r1) (auto simp add: Let_def)
          from notin ops Inr pr ks k2 Cons.prems(2) obtain ident2 where id2: "r2 = Inr ident2"
            by (cases r2) (auto simp add: Let_def)
          let ?s1 = "s1\<lparr> db_roles_operations := db_roles_operations s1
                           @ [AList.update ''_id'' (VStr ident1) ?item1] \<rparr>"
          let ?s2 = "s2\<lparr> db_roles_operations := db_roles_operations s2
                           @ [AList.update ''_id'' (VStr ident2) ?item2] \<rparr>"
          from notin ops Inr pr ks k1 id1 Cons.prems(1)
          have c1: "load_roles cfg be1 clock1 (Suc i1) docs (roles @ [rd_role d]) ?s1 = (Inr u1, st1')"
            by (simp add: Let_def)
          from notin ops Inr pr ks k2 id2 Cons.prems(2)
          have c2: "load_roles cfg be2 clock2 (Suc i2) docs (roles @ [rd_role d]) ?s2 = (Inr u2, st2')"
            by (simp add: Let_def)
          have eq: "map essential (db_roles_operations ?s1) = map essential (db_roles_operations ?s2)"
            using Cons.prems(3) fr1 fr2 items by (simp add: essential_update)
          from Cons.IH [OF c1 c2 eq] show ?thesis .
        next
          case False
          let ?s1 = "st1\<lparr> db_roles_operations := db_roles_operations st1 @ [?item1] \<rparr>"
          let ?s2 = "st2\<lparr> db_roles_operations := db_roles_operations st2 @ [?item2] \<rparr>"
          from False notin ops Inr pr Cons.prems(1)
          have c1: "load_roles cfg be1 clock1 (Suc i1) docs (roles @ [rd_role d]) ?s1 = (Inr u1, st1')"
            by (auto simp add: Let_def)
          from False notin ops Inr pr Cons.prems(2)
          have c2: "load_roles cfg be2 clock2 (Suc i2) docs (roles @ [rd_role d]) ?s2 = (Inr u2, st2')"
            by (auto simp add: Let_def)
          have eq: "map essential (db_roles_operations ?s1) = map essential (db_roles_operations ?s2)"
            using Cons.prems(3) items by simp
          from Cons.IH [OF c1 c2 eq] show ?thesis .
        qed
      qed
    qed
  qed
qed

lemma init_db_index:
  assumes "init_db cfg be clock resources roles st = (Inr u, st')"
    and "cfg_backend cfg \<noteq> ''internal''"
    and "read_resources resources [] (resources_to_operations_mapping st) = (operations, mapping)"
  shows "\<exists>t permissions.
      (if db_roles_operations st = []
       then load_roles cfg be clock 0 roles [] (st\<lparr> resources_to_operations_mapping := mapping \<rparr>)
       else (Inr (), st\<lparr> resources_to_operations_mapping := mapping \<rparr>)) = (Inr (), t)
    \<and> build_permissions operations (db_roles_operations t) (map (\<lambda>oper. (oper, [])) operations)
        = Inr permissions
    \<and> operation_to_allowed_roles st'
        = fold (\<lambda>(oper, role_list) index. AList.update oper role_list index) permissions
            (operation_to_allowed_roles t)
    \<and> resources_to_operations_mapping st' = resources_to_operations_mapping t"
proof -
  let ?load = "if db_roles_operations st = []
       then load_roles cfg be clock 0 roles [] (st\<lparr> resources_to_operations_mapping := mapping \<rparr>)
       else (Inr (), st\<lparr> resources_to_operations_mapping := mapping \<rparr>)"
  obtain l t where lt: "?load = (l, t)" by (cases ?load)
  from assms lt have l: "l = Inr ()"
    by (cases l) (auto simp add: init_db_def)
  let ?build = "build_permissions operations (db_roles_operations t)
                  (map (\<lambda>oper. (oper, [])) operations)"
  from assms lt l obtain permissions where b: "?build = Inr permissions"
    by (cases ?build) (auto simp add: init_db_def)
  from assms lt l b
  have "operation_to_allowed_roles st'
        = fold (\<lambda>(oper, role_list) index. AList.update oper role_list index) permissions
            (operation_to_allowed_roles t)
    \<and> resources_to_operations_mapping st' = resources_to_operations_mapping t"
    by (auto simp add: init_db_def Let_def split: sum.splits)
  with lt l b show ?thesis by blast
qed

text \<open>
  Claim C9: the build of the permission catalog is deterministic. Two runs of
  \<^verbatim>\<open>init_db\<close> that complete, on the same resource map and role map, from the same stored
  role records and the same previous value of the two catalog attributes, produce the same
  index from operations to allowed roles and the same resource map, whatever the two
  clocks read, whatever the two backends answer (the identifiers of the roles, the
  history of calls) and whatever the rest of the two states holds. The index is a list of
  items in insertion order, so equality here is equality of content and of order.
\<close>

theorem init_db_deterministic:
  assumes "init_db cfg be1 clock1 resources roles st1 = (Inr u1, st1')"
    and "init_db cfg be2 clock2 resources roles st2 = (Inr u2, st2')"
    and "db_roles_operations st1 = db_roles_operations st2"
    and "resources_to_operations_mapping st1 = resources_to_operations_mapping st2"
    and "operation_to_allowed_roles st1 = operation_to_allowed_roles st2"
  shows "operation_to_allowed_roles st1' = operation_to_allowed_roles st2'
    \<and> resources_to_operations_mapping st1' = resources_to_operations_mapping st2'"
proof (cases "cfg_backend cfg = ''internal''")
  case True
  with assms show ?thesis by (simp add: init_db_def)
next
  case False
  obtain operations mapping
    where rr1: "read_resources resources [] (resources_to_operations_mapping st1)
                  = (operations, mapping)"
    by (cases "read_resources resources [] (resources_to_operations_mapping st1)")
  with assms(4)
  have rr2: "read_resources resources [] (resources_to_operations_mapping st2)
                  = (operations, mapping)" by simp
  let ?s1 = "st1\<lparr> resources_to_operations_mapping := mapping \<rparr>"
  let ?s2 = "st2\<lparr> resources_to_operations_mapping := mapping \<rparr>"
  from init_db_index [OF assms(1) False rr1] obtain t1 p1 where
    l1: "(if db_roles_operations st1 = [] then load_roles cfg be1 clock1 0 roles [] ?s1
          else (Inr (), ?s1)) = (Inr (), t1)"
    and b1: "build_permissions operations (db_roles_operations t1)
               (map (\<lambda>oper. (oper, [])) operations) = Inr p1"
    and i1: "operation_to_allowed_roles st1'
               = fold (\<lambda>(oper, role_list) index. AList.update oper role_list index) p1
                   (operation_to_allowed_roles t1)"
    and m1: "resources_to_operations_mapping st1' = resources_to_operations_mapping t1"
    by blast
  from init_db_index [OF assms(2) False rr2] obtain t2 p2 where
    l2: "(if db_roles_operations st2 = [] then load_roles cfg be2 clock2 0 roles [] ?s2
          else (Inr (), ?s2)) = (Inr (), t2)"
    and b2: "build_permissions operations (db_roles_operations t2)
               (map (\<lambda>oper. (oper, [])) operations) = Inr p2"
    and i2: "operation_to_allowed_roles st2'
               = fold (\<lambda>(oper, role_list) index. AList.update oper role_list index) p2
                   (operation_to_allowed_roles t2)"
    and m2: "resources_to_operations_mapping st2' = resources_to_operations_mapping t2"
    by blast
  have frame: "resources_to_operations_mapping t1 = mapping
      \<and> resources_to_operations_mapping t2 = mapping
      \<and> operation_to_allowed_roles t1 = operation_to_allowed_roles st1
      \<and> operation_to_allowed_roles t2 = operation_to_allowed_roles st2
      \<and> map essential (db_roles_operations t1) = map essential (db_roles_operations t2)"
  proof (cases "db_roles_operations st1 = []")
    case True
    with assms(3) have e2: "db_roles_operations st2 = []" by simp
    from l1 True have c1: "load_roles cfg be1 clock1 0 roles [] ?s1 = (Inr (), t1)" by simp
    from l2 e2 have c2: "load_roles cfg be2 clock2 0 roles [] ?s2 = (Inr (), t2)" by simp
    have eq: "map essential (db_roles_operations ?s1) = map essential (db_roles_operations ?s2)"
      using assms(3) by simp
    from load_roles_frame [OF c1] load_roles_frame [OF c2] load_roles_essential [OF c1 c2 eq]
    show ?thesis by simp
  next
    case False
    with assms(3) have "db_roles_operations st2 \<noteq> []" by simp
    with l1 l2 False have "t1 = ?s1" "t2 = ?s2" by simp_all
    with assms(3) show ?thesis by simp
  qed
  from frame have "build_permissions operations (db_roles_operations t1)
               (map (\<lambda>oper. (oper, [])) operations)
     = build_permissions operations (db_roles_operations t2)
               (map (\<lambda>oper. (oper, [])) operations)"
    by (intro build_permissions_cong) simp
  with b1 b2 have "p1 = p2" by simp
  with i1 i2 m1 m2 frame assms(5) show ?thesis by simp
qed

lemmas init_db_eval =
  init_db_def operation_to_roles_item_def keystone_id_def record_permissions_def
  operations_joined_def apply_override_def ignore_fields_def colons_def
  keystone_config_def initial_state_def example_resources_def example_roles_def
  example_backend_def other_backend_def early_clock_def late_clock_def Let_def

theorem init_db_deterministic_witness:
  "fst (init_db keystone_config example_backend early_clock example_resources example_roles
          initial_state) = Inr ()
   \<and> fst (init_db keystone_config other_backend late_clock example_resources example_roles
          initial_state) = Inr ()
   \<and> db_roles_operations (snd (init_db keystone_config example_backend early_clock
          example_resources example_roles initial_state))
       \<noteq> db_roles_operations (snd (init_db keystone_config other_backend late_clock
          example_resources example_roles initial_state))
   \<and> operation_to_allowed_roles (snd (init_db keystone_config example_backend early_clock
          example_resources example_roles initial_state))
       = [(''vnfds:id'', [VStr ''project_viewer'']), (''vnfds:id:delete'', [])]
   \<and> operation_to_allowed_roles (snd (init_db keystone_config other_backend late_clock
          example_resources example_roles initial_state))
       = [(''vnfds:id'', [VStr ''project_viewer'']), (''vnfds:id:delete'', [])]"
proof -
  let ?r1 = "init_db keystone_config example_backend early_clock example_resources example_roles
          initial_state"
  let ?r2 = "init_db keystone_config other_backend late_clock example_resources example_roles
          initial_state"
  have a: "fst ?r1 = Inr ()" by (simp add: init_db_eval)
  have b: "fst ?r2 = Inr ()" by (simp add: init_db_eval)
  have c: "db_roles_operations (snd ?r1) \<noteq> db_roles_operations (snd ?r2)"
    by (simp add: init_db_eval)
  have d: "operation_to_allowed_roles (snd ?r1)
       = [(''vnfds:id'', [VStr ''project_viewer'']), (''vnfds:id:delete'', [])]"
    by (simp add: init_db_eval)
  have a': "?r1 = (Inr (), snd ?r1)" using a by (metis prod.collapse)
  have b': "?r2 = (Inr (), snd ?r2)" using b by (metis prod.collapse)
  from init_db_deterministic [OF a' b'] d
  have "operation_to_allowed_roles (snd ?r2)
       = [(''vnfds:id'', [VStr ''project_viewer'']), (''vnfds:id:delete'', [])]"
    by simp
  with a b c d show ?thesis by blast
qed

end
